theory Spec2Isabelle
  imports Main "HOL-Library.AList" "HOL-Library.Sublist"
begin

section \<open>Strings and regular expressions of the host language\<close>

text \<open>
  A TypeScript string is a sequence of code units; it is modelled as a \<^typ>\<open>string\<close>, each
  \<^typ>\<open>char\<close> standing for one code unit below 256, so that \<^const>\<open>length\<close> is the
  \<^verbatim>\<open>.length\<close> of the source. The empty string is the only falsy string.
\<close>

text \<open>The class \<^verbatim>\<open>\s\<close> on these code units: TAB, LF, VT, FF, CR, SPACE and NBSP.\<close>

definition js_space :: "char list" where
  "js_space = [CHR 0x09, CHR 0x0A, CHR 0x0B, CHR 0x0C, CHR 0x0D, CHR 0x20, CHR 0xA0]"

text \<open>The class \<^verbatim>\<open>\d\<close>.\<close>

definition js_digit :: "char list" where
  "js_digit = ''0123456789''"

text \<open>
  The regular expressions the sources use have no back-references and no look-around, so
  \<^verbatim>\<open>test\<close> decides membership in a regular language. \<open>Never\<close> matches nothing,
  \<open>Epsilon\<close> the empty string; \<open>In cs\<close> is a character class, \<open>NotIn cs\<close> a negated one.
\<close>

datatype rexp =
    Never
  | Epsilon
  | In "char list"
  | NotIn "char list"
  | Seq rexp rexp
  | Alt rexp rexp
  | Star rexp

definition Plus :: "rexp \<Rightarrow> rexp" where
  "Plus r = Seq r (Star r)"

definition Opt :: "rexp \<Rightarrow> rexp" where
  "Opt r = Alt Epsilon r"

fun Lit :: "string \<Rightarrow> rexp" where
  "Lit [] = Epsilon"
| "Lit (c # cs) = Seq (In [c]) (Lit cs)"

fun has_empty :: "rexp \<Rightarrow> bool" where
  "has_empty Never = False"
| "has_empty Epsilon = True"
| "has_empty (In cs) = False"
| "has_empty (NotIn cs) = False"
| "has_empty (Seq r s) = (has_empty r \<and> has_empty s)"
| "has_empty (Alt r s) = (has_empty r \<or> has_empty s)"
| "has_empty (Star r) = True"

fun after :: "char \<Rightarrow> rexp \<Rightarrow> rexp" where
  "after c Never = Never"
| "after c Epsilon = Never"
| "after c (In cs) = (if c \<in> set cs then Epsilon else Never)"
| "after c (NotIn cs) = (if c \<in> set cs then Never else Epsilon)"
| "after c (Seq r s) =
     (if has_empty r then Alt (Seq (after c r) s) (after c s) else Seq (after c r) s)"
| "after c (Alt r s) = Alt (after c r) (after c s)"
| "after c (Star r) = Seq (after c r) (Star r)"

fun accepts :: "rexp \<Rightarrow> string \<Rightarrow> bool" where
  "accepts r [] = has_empty r"
| "accepts r (c # cs) = accepts (after c r) cs"

text \<open>\<^verbatim>\<open>/^r$/.test(s)\<close>: without the \<^verbatim>\<open>m\<close> flag the anchors are the two ends of \<open>s\<close>.\<close>

definition test_anchored :: "rexp \<Rightarrow> string \<Rightarrow> bool" where
  "test_anchored r s = accepts r s"

text \<open>\<^verbatim>\<open>/r/.test(s)\<close>: some substring of \<open>s\<close> matches.\<close>

definition test_search :: "rexp \<Rightarrow> string \<Rightarrow> bool" where
  "test_search r s = accepts (Seq (Star (NotIn [])) (Seq r (Star (NotIn [])))) s"

section \<open>Field model\<close>

datatype FieldType = text_t | number_t | textarea_t | select_t | radio_t | checkbox_t | date_t

datatype ValidationType = required | minLength | maxLength | email | password

text \<open>\<^verbatim>\<open>value?: number\<close> is only ever written by \<^verbatim>\<open>parseInt(value) || 0\<close> and the literal 1.\<close>

record ValidationRule =
  rule_type :: ValidationType
  rule_value :: "int option"
  message :: string

text \<open>
  A form value is a string or an array of strings. (The type \<^verbatim>\<open>FormData\<close> also admits
  numbers, which the program never stores: results are stored with \<^verbatim>\<open>toString()\<close>.)
\<close>

datatype js_value = Str string | Arr "string list"

record FormField =
  field_id :: string
  field_type :: FieldType
  label :: string
  field_required :: bool
  defaultValue :: js_value
  validations :: "ValidationRule list"
  options :: "string list option"
  isDerived :: "bool option"
  derivedFormula :: "string option"
  derivedFrom :: "string list option"

record FormSchema =
  form_id :: string
  form_name :: string
  form_fields :: "FormField list"
  createdAt :: string

text \<open>
  The value object: a key that is absent reads as \<^verbatim>\<open>undefined\<close>, which is \<open>None\<close>
  here.
\<close>

type_synonym FormData = "string \<rightharpoonup> js_value"

text \<open>The error object, as the list of its keys and values.\<close>

type_synonym FormErrors = "(string \<times> string) list"

section \<open>Validation engine\<close>

text \<open>\<^verbatim>\<open>!value\<close>: \<^verbatim>\<open>undefined\<close> and the empty string are falsy, every array is truthy.\<close>

fun falsy :: "js_value option \<Rightarrow> bool" where
  "falsy None = True"
| "falsy (Some (Str s)) = (s = [])"
| "falsy (Some (Arr xs)) = False"

text \<open>\<^verbatim>\<open>rule.value || 0\<close>\<close>

fun value_or_0 :: "int option \<Rightarrow> int" where
  "value_or_0 None = 0"
| "value_or_0 (Some n) = n"

text \<open>\<^verbatim>\<open>/^[^\s@]+@[^\s@]+\.[^\s@]+$/\<close>\<close>

definition email_re :: rexp where
  "email_re =
     Seq (Plus (NotIn (js_space @ ''@'')))
       (Seq (In ''@'')
         (Seq (Plus (NotIn (js_space @ ''@'')))
           (Seq (In ''.'') (Plus (NotIn (js_space @ ''@''))))))"

fun validateRule :: "ValidationRule \<Rightarrow> js_value option \<Rightarrow> string" where
  "validateRule rule v =
     (case rule_type rule of
        required \<Rightarrow>
          (if falsy v \<or> (case v of Some (Arr xs) \<Rightarrow> length xs = 0 | _ \<Rightarrow> False)
           then message rule else [])
      | minLength \<Rightarrow>
          (case v of
             Some (Str s) \<Rightarrow> if int (length s) < value_or_0 (rule_value rule) then message rule else []
           | _ \<Rightarrow> [])
      | maxLength \<Rightarrow>
          (case v of
             Some (Str s) \<Rightarrow> if int (length s) > value_or_0 (rule_value rule) then message rule else []
           | _ \<Rightarrow> [])
      | email \<Rightarrow>
          (case v of
             Some (Str s) \<Rightarrow> if s \<noteq> [] \<and> \<not> test_anchored email_re s then message rule else []
           | _ \<Rightarrow> [])
      | password \<Rightarrow>
          (case v of
             Some (Str s) \<Rightarrow>
               if s \<noteq> [] \<and> (length s < 8 \<or> \<not> test_search (In js_digit) s) then message rule else []
           | _ \<Rightarrow> []))"

text \<open>
  The loop of \<^verbatim>\<open>validateField\<close>: \<^verbatim>\<open>if (error) return error\<close> leaves the loop at the
  first result that is a non-empty string.
\<close>

fun validateRules :: "ValidationRule list \<Rightarrow> js_value option \<Rightarrow> string" where
  "validateRules [] v = []"
| "validateRules (rule # rules) v =
     (let error = validateRule rule v in if error \<noteq> [] then error else validateRules rules v)"

definition validateField :: "FormField \<Rightarrow> js_value option \<Rightarrow> string" where
  "validateField field v = validateRules (validations field) v"

text \<open>
  The condition under which a rule takes its \<^verbatim>\<open>return rule.message\<close> branch, read off
  the five cases of \<^const>\<open>validateRule\<close>.
\<close>

definition rule_fails :: "ValidationRule \<Rightarrow> js_value option \<Rightarrow> bool" where
  "rule_fails rule v =
     (case rule_type rule of
        required \<Rightarrow> v = None \<or> v = Some (Str []) \<or> v = Some (Arr [])
      | minLength \<Rightarrow>
          (case v of Some (Str s) \<Rightarrow> int (length s) < value_or_0 (rule_value rule) | _ \<Rightarrow> False)
      | maxLength \<Rightarrow>
          (case v of Some (Str s) \<Rightarrow> int (length s) > value_or_0 (rule_value rule) | _ \<Rightarrow> False)
      | email \<Rightarrow>
          (case v of Some (Str s) \<Rightarrow> s \<noteq> [] \<and> \<not> test_anchored email_re s | _ \<Rightarrow> False)
      | password \<Rightarrow>
          (case v of
             Some (Str s) \<Rightarrow> s \<noteq> [] \<and> (length s < 8 \<or> \<not> test_search (In js_digit) s)
           | _ \<Rightarrow> False))"

text \<open>
  \<^verbatim>\<open>validateForm\<close>: the error object is built in field order; a key is written only for
  a non-empty error.
\<close>

definition validateForm :: "FormField list \<Rightarrow> FormData \<Rightarrow> FormErrors" where
  "validateForm fs formData =
     foldl (\<lambda>errors field.
              let error = validateField field (formData (field_id field))
              in if error \<noteq> [] then AList.update (field_id field) error errors else errors)
       [] fs"

text \<open>\<^verbatim>\<open>Object.values(errors).some(error => error !== '')\<close>\<close>

definition hasErrors :: "FormErrors \<Rightarrow> bool" where
  "hasErrors errors = list_ex (\<lambda>error. error \<noteq> []) (map snd errors)"

section \<open>The pattern of the spec: local@domain.tld\<close>

text \<open>
  The specification's words for the email rule: a local part, an at sign, a domain, a dot
  and a top-level part, each part non-empty and free of white space and at signs.
\<close>

definition email_part :: "string \<Rightarrow> bool" where
  "email_part p = (p \<noteq> [] \<and> (\<forall>c\<in>set p. c \<notin> set js_space \<and> c \<noteq> CHR ''@''))"

definition local_at_domain_tld :: "string \<Rightarrow> bool" where
  "local_at_domain_tld s =
     (\<exists>l d t. s = l @ ''@'' @ d @ ''.'' @ t \<and> email_part l \<and> email_part d \<and> email_part t)"

section \<open>The language of a regular expression\<close>

inductive_set star :: "string set \<Rightarrow> string set" for A :: "string set" where
  star_nil: "[] \<in> star A"
| star_app: "u \<in> A \<Longrightarrow> v \<in> star A \<Longrightarrow> u @ v \<in> star A"

fun lang :: "rexp \<Rightarrow> string set" where
  "lang Never = {}"
| "lang Epsilon = {[]}"
| "lang (In cs) = {[c] | c. c \<in> set cs}"
| "lang (NotIn cs) = {[c] | c. c \<notin> set cs}"
| "lang (Seq r s) = {u @ v | u v. u \<in> lang r \<and> v \<in> lang s}"
| "lang (Alt r s) = lang r \<union> lang s"
| "lang (Star r) = star (lang r)"

section \<open>Numbers of the host language\<close>

text \<open>
  The evaluator reads a value with \<^verbatim>\<open>Number\<close> and \<^verbatim>\<open>parseFloat\<close>. Which strings they
  accept is a matter of syntax (the grammar of ECMAScript's StringNumericLiteral) and is
  modelled in full; the double a literal denotes and the way a double is printed are left to
  the platform.
\<close>

definition DecimalDigits :: rexp where
  "DecimalDigits = Plus (In js_digit)"

definition ExponentPart :: rexp where
  "ExponentPart = Seq (In ''eE'') (Seq (Opt (In ''+-'')) DecimalDigits)"

definition StrUnsignedDecimalLiteral :: rexp where
  "StrUnsignedDecimalLiteral =
     Alt (Lit ''Infinity'')
       (Alt (Seq DecimalDigits (Seq (In ''.'') (Seq (Opt DecimalDigits) (Opt ExponentPart))))
         (Alt (Seq (In ''.'') (Seq DecimalDigits (Opt ExponentPart)))
           (Seq DecimalDigits (Opt ExponentPart))))"

definition StrDecimalLiteral :: rexp where
  "StrDecimalLiteral = Seq (Opt (In ''+-'')) StrUnsignedDecimalLiteral"

definition NonDecimalIntegerLiteral :: rexp where
  "NonDecimalIntegerLiteral =
     Alt (Seq (In ''0'') (Seq (In ''bB'') (Plus (In ''01''))))
       (Alt (Seq (In ''0'') (Seq (In ''oO'') (Plus (In ''01234567''))))
         (Seq (In ''0'') (Seq (In ''xX'') (Plus (In ''0123456789abcdefABCDEF'')))))"

definition StringNumericLiteral :: rexp where
  "StringNumericLiteral =
     Seq (Star (In js_space))
       (Opt (Seq (Alt StrDecimalLiteral NonDecimalIntegerLiteral) (Star (In js_space))))"

text \<open>\<^verbatim>\<open>Array.prototype.join\<close> and \<^verbatim>\<open>String(v)\<close>: an array prints its elements, comma-separated.\<close>

fun join :: "string \<Rightarrow> string list \<Rightarrow> string" where
  "join sep [] = []"
| "join sep [x] = x"
| "join sep (x # y # ys) = x @ sep @ join sep (y # ys)"

fun js_String :: "js_value \<Rightarrow> string" where
  "js_String (Str s) = s"
| "js_String (Arr xs) = join '','' xs"

text \<open>
  \<^verbatim>\<open>isNaN(Number(v))\<close>: \<^verbatim>\<open>Number\<close> converts an array to its string first, and a string
  is NaN exactly when it is not a StringNumericLiteral.
\<close>

definition isNaN_Number :: "js_value \<Rightarrow> bool" where
  "isNaN_Number v = (\<not> test_anchored StringNumericLiteral (js_String v))"

text \<open>
  The numbers the substitution step can hold: NaN, the literal 0 of the source, and the
  number \<^verbatim>\<open>parseFloat\<close> read from a decimal literal.
\<close>

datatype js_number = NaN | Zero_literal | Parsed string

text \<open>
  \<^verbatim>\<open>parseFloat(s)\<close>: skip leading white space, take the longest prefix that is a
  StrDecimalLiteral; NaN when no prefix is one.
\<close>

definition parseFloat :: "string \<Rightarrow> js_number" where
  "parseFloat s =
     (case find (test_anchored StrDecimalLiteral)
             (rev (prefixes (dropWhile (\<lambda>c. c \<in> set js_space) s))) of
        None \<Rightarrow> NaN
      | Some lit \<Rightarrow> Parsed lit)"

text \<open>
  What the sources take from the platform and this theory does not compute:
  \<^item> \<open>number_toString lit\<close>: \<^verbatim>\<open>toString()\<close> of the double the decimal literal \<open>lit\<close> denotes
    (a text without dollar signs);
  \<^item> \<open>evaluate formula\<close>: \<^verbatim>\<open>Function('"use strict"; return (' + formula + ')')().toString()\<close>,
    \<open>None\<close> when the call throws;
  \<^item> \<open>JSON_stringify data\<close>: \<^verbatim>\<open>JSON.stringify(formData, null, 2)\<close>.
\<close>

record js_platform =
  number_toString :: "string \<Rightarrow> string"
  evaluate :: "string \<Rightarrow> string option"
  JSON_stringify :: "FormData \<Rightarrow> string"

fun toString :: "js_platform \<Rightarrow> js_number \<Rightarrow> string" where
  "toString P NaN = ''NaN''"
| "toString P Zero_literal = ''0''"
| "toString P (Parsed lit) = number_toString P lit"

section \<open>Derived-field evaluator\<close>

text \<open>\<^verbatim>\<open>newData[f.id] || ''\<close>\<close>

fun fieldValue :: "js_value option \<Rightarrow> js_value" where
  "fieldValue None = Str []"
| "fieldValue (Some (Str s)) = Str s"
| "fieldValue (Some (Arr xs)) = Arr xs"

text \<open>\<^verbatim>\<open>isNaN(Number(fieldValue)) ? 0 : parseFloat(String(fieldValue))\<close>\<close>

definition numericValue :: "js_value \<Rightarrow> js_number" where
  "numericValue fv = (if isNaN_Number fv then Zero_literal else parseFloat (js_String fv))"

text \<open>The characters of the class \<^verbatim>\<open>[.*+?^${}()|[\]\\]\<close>.\<close>

definition backslash :: char where
  "backslash = CHR 0x5C"

definition regexp_special :: "char list" where
  "regexp_special = ''.*+?^${}()|[]'' @ [backslash]"

text \<open>
  \<^verbatim>\<open>f.label.replace(/[.*+?^${}()|[\]\\]/g, '\\$&')\<close> of the component
  \<^verbatim>\<open>DynamicFormBuilder\<close>: a backslash before every special character.
\<close>

definition escapedLabel :: "string \<Rightarrow> string" where
  "escapedLabel l = concat (map (\<lambda>c. if c \<in> set regexp_special then [backslash, c] else [c]) l)"

text \<open>
  The same line of the class \<^verbatim>\<open>FormPreview\<close>, whose replacement string is
  \<^verbatim>\<open>'\\### Continue with remaining files...'\<close>: every special character is replaced by
  that text.
\<close>

definition escapedLabel_FormPreview :: "string \<Rightarrow> string" where
  "escapedLabel_FormPreview l =
     concat (map (\<lambda>c. if c \<in> set regexp_special
                       then backslash # ''### Continue with remaining files...'' else [c]) l)"

text \<open>
  \<^verbatim>\<open>new RegExp(source, 'g')\<close> for the sources the two escape functions produce: ordinary
  characters, a backslash before a special character or a hash (the character itself), and
  the dot, which matches every code unit but a line terminator. \<open>None\<close> is every other
  source; the lemmas \<open>RegExp_escapedLabel\<close> and \<open>RegExp_escapedLabel_FormPreview\<close> below
  show that neither escape function produces one.
\<close>

datatype atom = Literal char | Dot

fun RegExp :: "string \<Rightarrow> atom list option" where
  "RegExp [] = Some []"
| "RegExp [c] =
     (if c = CHR ''.'' then Some [Dot]
      else if c \<in> set regexp_special then None
      else Some [Literal c])"
| "RegExp (c # d # ds) =
     (if c = backslash then
        (if d \<in> set regexp_special \<or> d = CHR ''#'' then map_option ((#) (Literal d)) (RegExp ds)
         else None)
      else if c = CHR ''.'' then map_option ((#) Dot) (RegExp (d # ds))
      else if c \<in> set regexp_special then None
      else map_option ((#) (Literal c)) (RegExp (d # ds)))"

fun atom_matches :: "atom \<Rightarrow> char \<Rightarrow> bool" where
  "atom_matches (Literal c) d = (c = d)"
| "atom_matches Dot d = (d \<noteq> CHR 0x0A \<and> d \<noteq> CHR 0x0D)"

text \<open>Does the pattern match at the start of the string?\<close>

fun match_at :: "atom list \<Rightarrow> string \<Rightarrow> bool" where
  "match_at [] s = True"
| "match_at (a # as) [] = False"
| "match_at (a # as) (c # cs) = (atom_matches a c \<and> match_at as cs)"

text \<open>
  \<^verbatim>\<open>s.replace(re, r)\<close> for a global pattern of atoms and a replacement without dollar
  signs: matches are taken from left to right and do not overlap; the empty pattern matches
  before every code unit and at the end.
\<close>

fun replace_g :: "atom list \<Rightarrow> string \<Rightarrow> string \<Rightarrow> string" where
  "replace_g re r [] = (if re = [] then r else [])"
| "replace_g re r (c # cs) =
     (if re = [] then r @ c # replace_g re r cs
      else if match_at re (c # cs) then r @ replace_g re r (drop (length re - 1) cs)
      else c # replace_g re r cs)"

text \<open>
  The inner \<^verbatim>\<open>forEach\<close> of \<^verbatim>\<open>updateDerivedFields\<close>, for the derived field \<open>field\<close>:
  every field with another id has its label replaced by its numeric value. The escape
  function is a parameter, the two sources differing in it. \<open>None\<close> is an exception of
  the \<^verbatim>\<open>RegExp\<close> constructor.
\<close>

fun substitute :: "js_platform \<Rightarrow> (string \<Rightarrow> string) \<Rightarrow> FormField \<Rightarrow> FormData \<Rightarrow>
    FormField list \<Rightarrow> string \<Rightarrow> string option" where
  "substitute P esc field newData [] formula = Some formula"
| "substitute P esc field newData (f # fs) formula =
     (if field_id f \<noteq> field_id field then
        (case RegExp (esc (label f)) of
           None \<Rightarrow> None
         | Some re \<Rightarrow>
             substitute P esc field newData fs
               (replace_g re (toString P (numericValue (fieldValue (newData (field_id f))))) formula))
      else substitute P esc field newData fs formula)"

text \<open>\<^verbatim>\<open>/^[\d+\-*/(). ]+$/\<close>\<close>

definition whitelist :: "char list" where
  "whitelist = js_digit @ ''+-*/(). ''"

definition whitelist_re :: rexp where
  "whitelist_re = Plus (In whitelist)"

text \<open>\<^verbatim>\<open>field.isDerived && field.derivedFormula\<close>\<close>

definition derived_with_formula :: "FormField \<Rightarrow> bool" where
  "derived_with_formula field =
     (isDerived field = Some True \<and>
      (case derivedFormula field of None \<Rightarrow> False | Some formula \<Rightarrow> formula \<noteq> []))"

text \<open>
  The body of the outer \<^verbatim>\<open>forEach\<close>: one derived field is recomputed. The result is the
  value object and the strings the step has passed to \<^verbatim>\<open>Function\<close>. Everything in the
  \<^verbatim>\<open>try\<close> block that throws ends in the \<^verbatim>\<open>catch\<close>, which writes a line to the console
  and leaves the values as they are.
\<close>

definition deriveField_traced :: "js_platform \<Rightarrow> (string \<Rightarrow> string) \<Rightarrow> FormField list \<Rightarrow>
    FormData \<Rightarrow> FormField \<Rightarrow> FormData \<times> string list" where
  "deriveField_traced P esc fs newData field =
     (if derived_with_formula field then
        (case derivedFormula field of
           None \<Rightarrow> (newData, [])
         | Some formula0 \<Rightarrow>
             (case substitute P esc field newData fs formula0 of
                None \<Rightarrow> (newData, [])
              | Some formula \<Rightarrow>
                  if test_anchored whitelist_re formula then
                    (case evaluate P formula of
                       None \<Rightarrow> (newData, [formula])
                     | Some result \<Rightarrow> (newData(field_id field \<mapsto> Str result), [formula]))
                  else (newData, [])))
      else (newData, []))"

definition deriveField :: "js_platform \<Rightarrow> (string \<Rightarrow> string) \<Rightarrow> FormField list \<Rightarrow>
    FormData \<Rightarrow> FormField \<Rightarrow> FormData" where
  "deriveField P esc fs newData field = fst (deriveField_traced P esc fs newData field)"

text \<open>The outer \<^verbatim>\<open>forEach\<close>: the pass over all fields, in the order of the form.\<close>

definition derive_all_traced :: "js_platform \<Rightarrow> (string \<Rightarrow> string) \<Rightarrow> FormField list \<Rightarrow>
    FormData \<Rightarrow> FormData \<times> string list" where
  "derive_all_traced P esc fs data =
     foldl (\<lambda>(newData, calls) field.
              case deriveField_traced P esc fs newData field of
                (newData', called) \<Rightarrow> (newData', calls @ called))
       (data, []) fs"

definition derive_all :: "js_platform \<Rightarrow> (string \<Rightarrow> string) \<Rightarrow> FormField list \<Rightarrow>
    FormData \<Rightarrow> FormData" where
  "derive_all P esc fs data = fst (derive_all_traced P esc fs data)"

text \<open>The strings a pass hands to \<^verbatim>\<open>Function\<close>, in order.\<close>

definition Function_calls :: "js_platform \<Rightarrow> (string \<Rightarrow> string) \<Rightarrow> FormField list \<Rightarrow>
    FormData \<Rightarrow> string list" where
  "Function_calls P esc fs data = snd (derive_all_traced P esc fs data)"

section \<open>Form session\<close>

datatype PageType = create | preview | myforms

text \<open>The state of the component \<^verbatim>\<open>DynamicFormBuilder\<close>.\<close>

record AppState =
  currentForm :: FormSchema
  savedForms :: "FormSchema list"
  currentPage :: PageType
  app_formData :: FormData
  app_formErrors :: FormErrors
  isSaveModalOpen :: bool

text \<open>The state of the class \<^verbatim>\<open>FormPreview\<close>.\<close>

record FormPreview =
  form :: FormSchema
  formData :: FormData
  formErrors :: FormErrors

text \<open>What the user sees of an operation.\<close>

datatype effect = Alert string | RenderFields | NotifyFormChange | RenderPreview

text \<open>\<^verbatim>\<open>updateDerivedFields(data, form)\<close> of the component: the result goes to \<^verbatim>\<open>setFormData\<close>.\<close>

definition updateDerivedFields :: "js_platform \<Rightarrow> FormData \<Rightarrow> FormSchema \<Rightarrow> AppState \<Rightarrow> AppState" where
  "updateDerivedFields P data frm st =
     st\<lparr>app_formData := derive_all P escapedLabel (form_fields frm) data\<rparr>"

text \<open>
  \<^verbatim>\<open>FormPreview.updateDerivedFields()\<close> of the class, which works on \<^verbatim>\<open>this.formData\<close>.
  (It also copies each result into the input element of the page.)
\<close>

definition FormPreview_updateDerivedFields :: "js_platform \<Rightarrow> FormPreview \<Rightarrow> FormPreview" where
  "FormPreview_updateDerivedFields P this =
     this\<lparr>formData := derive_all P escapedLabel_FormPreview (form_fields (form this)) (formData this)\<rparr>"

section \<open>Form builder: validation rules of a field\<close>

definition DEFAULT_VALIDATION_MESSAGES :: "ValidationType \<Rightarrow> string" where
  "DEFAULT_VALIDATION_MESSAGES t =
     (case t of
        required \<Rightarrow> ''This field is required''
      | minLength \<Rightarrow> ''Minimum length not met''
      | maxLength \<Rightarrow> ''Maximum length exceeded''
      | email \<Rightarrow> ''Please enter a valid email address''
      | password \<Rightarrow> ''Password must be at least 8 characters with a number'')"

text \<open>The rule object both \<^verbatim>\<open>addValidation\<close> functions build.\<close>

definition new_validation :: "ValidationType \<Rightarrow> ValidationRule" where
  "new_validation t =
     \<lparr>rule_type = t,
      rule_value = (if t = minLength \<or> t = maxLength then Some 1 else None),
      message = DEFAULT_VALIDATION_MESSAGES t\<rparr>"

text \<open>
  \<^verbatim>\<open>fields.find(f => f.id === fieldId)\<close> yields the first field with the id, and the class
  \<^verbatim>\<open>FormBuilder\<close> changes that object in place.
\<close>

fun change_first :: "('a \<Rightarrow> bool) \<Rightarrow> ('a \<Rightarrow> 'a) \<Rightarrow> 'a list \<Rightarrow> 'a list" where
  "change_first p g [] = []"
| "change_first p g (x # xs) = (if p x then g x # xs else x # change_first p g xs)"

text \<open>\<^verbatim>\<open>FormBuilder.createEmptyForm()\<close> and \<^verbatim>\<open>FormBuilder.addField()\<close>, with the generated id.\<close>

definition createEmptyForm :: FormSchema where
  "createEmptyForm = \<lparr>form_id = [], form_name = [], form_fields = [], createdAt = []\<rparr>"

definition addField :: "string \<Rightarrow> FormSchema \<Rightarrow> FormSchema \<times> effect list" where
  "addField newId frm =
     (frm\<lparr>form_fields := form_fields frm @
        [\<lparr>field_id = newId, field_type = text_t, label = ''New Field'',
          field_required = False, defaultValue = Str [], validations = [], options = Some [],
          isDerived = Some False, derivedFormula = Some [], derivedFrom = Some []\<rparr>]\<rparr>,
      [RenderFields, NotifyFormChange])"

text \<open>\<^verbatim>\<open>FormBuilder.addValidation(fieldId, type)\<close> on \<^verbatim>\<open>this.currentForm\<close>.\<close>

definition addValidation :: "string \<Rightarrow> ValidationType \<Rightarrow> FormSchema \<Rightarrow> FormSchema \<times> effect list" where
  "addValidation fieldId t frm =
     (case find (\<lambda>f. field_id f = fieldId) (form_fields frm) of
        None \<Rightarrow> (frm, [])
      | Some field \<Rightarrow>
          if list_ex (\<lambda>v. rule_type v = t) (validations field)
          then (frm, [Alert ''This validation is already added!''])
          else (frm\<lparr>form_fields :=
                      change_first (\<lambda>f. field_id f = fieldId)
                        (\<lambda>f. f\<lparr>validations := validations f @ [new_validation t]\<rparr>)
                        (form_fields frm)\<rparr>,
                [RenderFields, NotifyFormChange]))"

text \<open>
  \<^verbatim>\<open>updateField(fieldId, 'validations', value)\<close> of the component: every field with the
  id gets the new list.
\<close>

definition updateField_validations :: "string \<Rightarrow> ValidationRule list \<Rightarrow> AppState \<Rightarrow> AppState" where
  "updateField_validations fieldId v st =
     st\<lparr>currentForm := (currentForm st)\<lparr>form_fields :=
          map (\<lambda>field. if field_id field = fieldId then field\<lparr>validations := v\<rparr> else field)
            (form_fields (currentForm st))\<rparr>\<rparr>"

text \<open>
  \<^verbatim>\<open>addValidation(type)\<close> of the component \<^verbatim>\<open>FieldEditor\<close>, whose \<^verbatim>\<open>field\<close> is one field of
  the current form and whose \<^verbatim>\<open>onUpdate\<close> is \<^verbatim>\<open>updateField\<close> at the id of that field.
\<close>

definition FieldEditor_addValidation :: "FormField \<Rightarrow> ValidationType \<Rightarrow> AppState \<Rightarrow> AppState \<times> effect list" where
  "FieldEditor_addValidation field t st =
     (if list_ex (\<lambda>v. rule_type v = t) (validations field)
      then (st, [Alert ''This validation is already added!''])
      else (updateField_validations (field_id field) (validations field @ [new_validation t]) st, []))"

text \<open>A series of calls of \<^verbatim>\<open>FormBuilder.addValidation\<close>, each with a field id and a kind.\<close>

definition addValidations :: "(string \<times> ValidationType) list \<Rightarrow> FormSchema \<Rightarrow> FormSchema" where
  "addValidations calls frm = foldl (\<lambda>f (fieldId, t). fst (addValidation fieldId t f)) frm calls"

text \<open>The invariant of the field model: at most one rule of each kind.\<close>

definition one_rule_per_kind :: "FormField \<Rightarrow> bool" where
  "one_rule_per_kind field = distinct (map rule_type (validations field))"

text \<open>The number of rules of a kind on the first field with an id (0 when there is no such field).\<close>

definition rules_of_kind :: "ValidationType \<Rightarrow> string \<Rightarrow> FormSchema \<Rightarrow> nat" where
  "rules_of_kind t fieldId frm =
     (case find (\<lambda>f. field_id f = fieldId) (form_fields frm) of
        None \<Rightarrow> 0
      | Some field \<Rightarrow> length (filter (\<lambda>v. rule_type v = t) (validations field)))"

section \<open>Submitting the form\<close>

definition LF :: char where
  "LF = CHR 0x0A"

definition fix_errors_text :: string where
  "fix_errors_text = ''Please fix the errors in the form before submitting.''"

definition success_text :: "js_platform \<Rightarrow> FormData \<Rightarrow> string" where
  "success_text P data =
     ''Form submitted successfully!'' @ [LF, LF] @ ''Form Data:'' @ [LF] @ JSON_stringify P data"

text \<open>\<^verbatim>\<open>handleFormSubmit\<close> of the component \<^verbatim>\<open>DynamicFormBuilder\<close>.\<close>

definition handleFormSubmit :: "js_platform \<Rightarrow> AppState \<Rightarrow> AppState \<times> effect list" where
  "handleFormSubmit P st =
     (let errors = validateForm (form_fields (currentForm st)) (app_formData st);
          st' = st\<lparr>app_formErrors := errors\<rparr>
      in if hasErrors errors then (st', [Alert fix_errors_text])
         else (st', [Alert (success_text P (app_formData st))]))"

text \<open>
  \<^verbatim>\<open>FormPreview.renderPreview()\<close>: the page is drawn again, and for a form with fields the
  derived fields are recomputed.
\<close>

definition renderPreview :: "js_platform \<Rightarrow> FormPreview \<Rightarrow> FormPreview" where
  "renderPreview P this =
     (if length (form_fields (form this)) = 0 then this else FormPreview_updateDerivedFields P this)"

text \<open>\<^verbatim>\<open>FormPreview.handleFormSubmit()\<close> of the class.\<close>

definition FormPreview_handleFormSubmit :: "js_platform \<Rightarrow> FormPreview \<Rightarrow> FormPreview \<times> effect list" where
  "FormPreview_handleFormSubmit P this =
     (let errors = validateForm (form_fields (form this)) (formData this);
          this' = this\<lparr>formErrors := errors\<rparr>
      in if hasErrors errors then (renderPreview P this', [Alert fix_errors_text, RenderPreview])
         else (this', [Alert (success_text P (formData this))]))"

section \<open>Persistence gateway\<close>

text \<open>
  The item of \<^verbatim>\<open>localStorage\<close> under the key \<^verbatim>\<open>formBuilder_savedForms\<close>. The program
  writes it with \<^verbatim>\<open>JSON.stringify\<close> of an array of forms, and \<^verbatim>\<open>JSON.parse\<close> of that text
  is an array of equal forms (a form holds strings, booleans, integers and arrays of them);
  the text is modelled by the array it denotes. \<open>Unparsable\<close> is a text on which
  \<^verbatim>\<open>JSON.parse\<close> throws. \<open>quota_exceeded\<close> tells whether \<^verbatim>\<open>setItem\<close> throws.
\<close>

datatype stored_forms = Unparsable | Forms "FormSchema list"

record localStorage =
  SAVED_FORMS :: "stored_forms option"
  quota_exceeded :: bool

datatype storage_error = Failed_to_save_form

text \<open>\<^verbatim>\<open>StorageManager.getSavedForms()\<close>\<close>

definition getSavedForms :: "localStorage \<Rightarrow> FormSchema list" where
  "getSavedForms ls =
     (case SAVED_FORMS ls of None \<Rightarrow> [] | Some Unparsable \<Rightarrow> [] | Some (Forms fs) \<Rightarrow> fs)"

text \<open>\<^verbatim>\<open>StorageManager.saveForm(form)\<close>: an exception of \<^verbatim>\<open>setItem\<close> becomes the error.\<close>

definition saveForm :: "FormSchema \<Rightarrow> localStorage \<Rightarrow> storage_error + localStorage" where
  "saveForm frm ls =
     (let savedForms = getSavedForms ls @ [frm]
      in if quota_exceeded ls then Inl Failed_to_save_form
         else Inr (ls\<lparr>SAVED_FORMS := Some (Forms savedForms)\<rparr>))"

text \<open>\<^verbatim>\<open>StorageManager.getFormById(formId)\<close>: the first saved form with the id.\<close>

definition getFormById :: "string \<Rightarrow> localStorage \<Rightarrow> FormSchema option" where
  "getFormById formId ls = find (\<lambda>f. form_id f = formId) (getSavedForms ls)"

text \<open>
  The in-memory \<^verbatim>\<open>StorageManager\<close> of the component, on the array
  \<^verbatim>\<open>savedFormsStorage\<close>.
\<close>

definition memory_saveForm :: "FormSchema \<Rightarrow> FormSchema list \<Rightarrow> FormSchema list" where
  "memory_saveForm frm savedFormsStorage = savedFormsStorage @ [frm]"

definition memory_getFormById :: "string \<Rightarrow> FormSchema list \<Rightarrow> FormSchema option" where
  "memory_getFormById formId savedFormsStorage = find (\<lambda>f. form_id f = formId) savedFormsStorage"

text \<open>
  \<^verbatim>\<open>saveForm(name)\<close> of the component, on its state and \<^verbatim>\<open>savedFormsStorage\<close>. The id
  (\<^verbatim>\<open>generateId()\<close>) and the time (\<^verbatim>\<open>new Date().toISOString()\<close>) come from the platform; the
  fields are a deep copy of the current ones.
\<close>

definition DynamicFormBuilder_saveForm :: "string \<Rightarrow> string \<Rightarrow> string \<Rightarrow> AppState \<times> FormSchema list \<Rightarrow>
    (AppState \<times> FormSchema list) \<times> effect list" where
  "DynamicFormBuilder_saveForm name newId now s =
     (case s of (st, savedFormsStorage) \<Rightarrow>
        if length (form_fields (currentForm st)) = 0
        then ((st, savedFormsStorage), [Alert ''Please add some fields before saving the form.''])
        else
          let newForm = \<lparr>form_id = newId, form_name = name,
                          form_fields = form_fields (currentForm st), createdAt = now\<rparr>;
              storage' = memory_saveForm newForm savedFormsStorage
          in ((st\<lparr>savedForms := storage', isSaveModalOpen := False, currentPage := myforms\<rparr>, storage'),
              [Alert ''Form saved successfully!'']))"

section \<open>Notions used in the statements\<close>

text \<open>The pattern the replacement text of \<^const>\<open>escapedLabel_FormPreview\<close> compiles to.\<close>

definition garbled :: "atom list" where
  "garbled = map Literal ''### Continue with remaining files'' @ [Dot, Dot, Dot]"

text \<open>
  The formula of the derived field \<open>D\<close> after the substitution step, on the values \<open>d\<close>
  the pass holds when it reaches \<open>D\<close>.
\<close>

definition substituted :: "js_platform \<Rightarrow> (string \<Rightarrow> string) \<Rightarrow> FormField list \<Rightarrow> FormData \<Rightarrow>
    FormField \<Rightarrow> string option" where
  "substituted P esc fs d D =
     (case derivedFormula D of None \<Rightarrow> None | Some formula0 \<Rightarrow> substitute P esc D d fs formula0)"

text \<open>A formula with a character outside the whitelist, or one whose evaluation throws.\<close>

definition not_evaluable :: "js_platform \<Rightarrow> string \<Rightarrow> bool" where
  "not_evaluable P formula =
     ((\<exists>c\<in>set formula. c \<notin> set whitelist) \<or> evaluate P formula = None)"

section \<open>Example data\<close>

definition ex_required :: ValidationRule where
  "ex_required = \<lparr>rule_type = required, rule_value = None, message = ''This field is required''\<rparr>"

definition ex_required_blank :: ValidationRule where
  "ex_required_blank = \<lparr>rule_type = required, rule_value = None, message = []\<rparr>"

definition ex_minLength3 :: ValidationRule where
  "ex_minLength3 = \<lparr>rule_type = minLength, rule_value = Some 3, message = ''Minimum length not met''\<rparr>"

definition ex_maxLength1 :: ValidationRule where
  "ex_maxLength1 = \<lparr>rule_type = maxLength, rule_value = Some 1, message = ''Maximum length exceeded''\<rparr>"

definition ex_email :: ValidationRule where
  "ex_email = \<lparr>rule_type = email, rule_value = None, message = ''Please enter a valid email address''\<rparr>"

definition ex_password :: ValidationRule where
  "ex_password = \<lparr>rule_type = password, rule_value = None,
     message = ''Password must be at least 8 characters with a number''\<rparr>"

definition ex_text_field :: "ValidationRule list \<Rightarrow> FormField" where
  "ex_text_field rules = \<lparr>field_id = ''f1'', field_type = text_t, label = ''Name'',
     field_required = False, defaultValue = Str [], validations = rules, options = Some [],
     isDerived = Some False, derivedFormula = Some [], derivedFrom = Some []\<rparr>"

definition ex_checkbox_field :: "ValidationRule list \<Rightarrow> FormField" where
  "ex_checkbox_field rules = \<lparr>field_id = ''f2'', field_type = checkbox_t, label = ''Colours'',
     field_required = False, defaultValue = Arr [], validations = rules,
     options = Some [''red'', ''green''], isDerived = Some False, derivedFormula = Some [],
     derivedFrom = Some []\<rparr>"

definition ex_number_field :: "string \<Rightarrow> string \<Rightarrow> FormField" where
  "ex_number_field i l = \<lparr>field_id = i, field_type = number_t, label = l,
     field_required = False, defaultValue = Str [], validations = [], options = Some [],
     isDerived = Some False, derivedFormula = Some [], derivedFrom = Some []\<rparr>"

definition ex_derived_field :: "string \<Rightarrow> string \<Rightarrow> string \<Rightarrow> FormField" where
  "ex_derived_field i l formula = \<lparr>field_id = i, field_type = number_t, label = l,
     field_required = False, defaultValue = Str [], validations = [], options = Some [],
     isDerived = Some True, derivedFormula = Some formula, derivedFrom = Some []\<rparr>"

text \<open>The form of the examples: two numbers \<open>A\<close> and \<open>B\<close> and a derived field \<open>C\<close>.\<close>

definition ex_form :: "string \<Rightarrow> FormSchema" where
  "ex_form formula = \<lparr>form_id = ''form1'', form_name = ''Sum'',
     form_fields = [ex_number_field ''a'' ''A'', ex_number_field ''b'' ''B'',
                    ex_derived_field ''c'' ''C'' formula],
     createdAt = ''2024-01-01T00:00:00.000Z''\<rparr>"

definition ex_data :: "string \<Rightarrow> string \<Rightarrow> FormData" where
  "ex_data a b = [''a'' \<mapsto> Str a, ''b'' \<mapsto> Str b, ''c'' \<mapsto> Str ''old'']"

text \<open>
  A platform for the examples: it prints the numerals 3 and 4 as they are written, knows
  the value of \<open>3 + 4\<close> and throws on the other formulas of the examples, which are not
  expressions.
\<close>

definition ex_platform :: js_platform where
  "ex_platform = \<lparr>number_toString = (\<lambda>lit. lit),
     evaluate = (\<lambda>formula. if formula = ''3 + 4'' then Some ''7'' else None),
     JSON_stringify = (\<lambda>data. ''{}'')\<rparr>"

definition ex_app :: "string \<Rightarrow> AppState" where
  "ex_app formula = \<lparr>currentForm = ex_form formula, savedForms = [], currentPage = preview,
     app_formData = ex_data ''3'' ''4'', app_formErrors = [(''a'', ''stale'')],
     isSaveModalOpen = False\<rparr>"

definition ex_preview :: "string \<Rightarrow> FormPreview" where
  "ex_preview formula = \<lparr>form = ex_form formula, formData = ex_data ''3'' ''4'',
     formErrors = [(''a'', ''stale'')]\<rparr>"

definition ex_builder_form :: FormSchema where
  "ex_builder_form = fst (addField ''f1'' createEmptyForm)"

definition ex_builder_app :: AppState where
  "ex_builder_app = \<lparr>currentForm = ex_builder_form, savedForms = [], currentPage = create,
     app_formData = Map.empty, app_formErrors = [], isSaveModalOpen = False\<rparr>"

definition ex_new_field :: "ValidationRule list \<Rightarrow> FormField" where
  "ex_new_field rules = \<lparr>field_id = ''f1'', field_type = text_t, label = ''New Field'',
     field_required = False, defaultValue = Str [], validations = rules, options = Some [],
     isDerived = Some False, derivedFormula = Some [], derivedFrom = Some []\<rparr>"

definition ex_submit_form :: FormSchema where
  "ex_submit_form = \<lparr>form_id = ''form2'', form_name = ''Contact'',
     form_fields = [ex_text_field [ex_required, ex_minLength3]],
     createdAt = ''2024-01-01T00:00:00.000Z''\<rparr>"

definition ex_submit_app :: "string \<Rightarrow> AppState" where
  "ex_submit_app v = \<lparr>currentForm = ex_submit_form, savedForms = [], currentPage = preview,
     app_formData = [''f1'' \<mapsto> Str v], app_formErrors = [], isSaveModalOpen = False\<rparr>"

definition ex_submit_preview :: "string \<Rightarrow> FormPreview" where
  "ex_submit_preview v = \<lparr>form = ex_submit_form, formData = [''f1'' \<mapsto> Str v], formErrors = []\<rparr>"

definition ex_saved_first :: FormSchema where
  "ex_saved_first = \<lparr>form_id = ''x'', form_name = ''first'', form_fields = [ex_text_field []],
     createdAt = ''2024-01-01T00:00:00.000Z''\<rparr>"

definition ex_saved_second :: FormSchema where
  "ex_saved_second = \<lparr>form_id = ''x'', form_name = ''second'',
     form_fields = [ex_text_field [ex_required], ex_checkbox_field []],
     createdAt = ''2024-01-02T00:00:00.000Z''\<rparr>"

definition ex_storage :: "FormSchema list \<Rightarrow> localStorage" where
  "ex_storage fs = \<lparr>SAVED_FORMS = Some (Forms fs), quota_exceeded = False\<rparr>"

section \<open>Regular expressions decide their language\<close>

lemma has_empty_lang: "has_empty r \<longleftrightarrow> [] \<in> lang r"
  by (induction r) (auto intro: star_nil)

lemma star_cons: "c # w \<in> star A \<longleftrightarrow> (\<exists>u v. w = u @ v \<and> c # u \<in> A \<and> v \<in> star A)"
proof
  assume "c # w \<in> star A"
  then show "\<exists>u v. w = u @ v \<and> c # u \<in> A \<and> v \<in> star A"
  proof (induction "c # w" rule: star.induct)
    case (star_app u v)
    show ?case
    proof (cases u)
      case Nil
      with star_app show ?thesis by simp
    next
      case (Cons a u')
      with star_app show ?thesis by auto
    qed
  qed
next
  assume "\<exists>u v. w = u @ v \<and> c # u \<in> A \<and> v \<in> star A"
  then obtain u v where "w = u @ v" "c # u \<in> A" "v \<in> star A" by blast
  then have "(c # u) @ v \<in> star A" by (intro star_app)
  with \<open>w = u @ v\<close> show "c # w \<in> star A" by simp
qed

lemma after_lang: "w \<in> lang (after c r) \<longleftrightarrow> c # w \<in> lang r"
proof (induction r arbitrary: w)
  case (Seq r s)
  then show ?case
    by (auto simp: has_empty_lang Cons_eq_append_conv)
next
  case (Star r)
  then show ?case by (auto simp: star_cons)
qed auto

lemma accepts_lang: "accepts r w \<longleftrightarrow> w \<in> lang r"
  by (induction w arbitrary: r) (simp_all add: has_empty_lang after_lang)

lemma star_class: "star {[c] | c. P c} = {w. \<forall>c\<in>set w. P c}"
proof (intro set_eqI iffI)
  fix w assume "w \<in> star {[c] | c. P c}"
  then show "w \<in> {w. \<forall>c\<in>set w. P c}" by (induction rule: star.induct) auto
next
  fix w assume "w \<in> {w. \<forall>c\<in>set w. P c}"
  then have "\<forall>c\<in>set w. P c" by simp
  then show "w \<in> star {[c] | c. P c}"
  proof (induction w)
    case Nil show ?case by (rule star_nil)
  next
    case (Cons a w)
    then have "[a] @ w \<in> star {[c] | c. P c}" by (intro star_app) auto
    then show ?case by simp
  qed
qed

lemma lang_Plus_class:
  "{u @ v | u v. u \<in> {[c] | c. P c} \<and> v \<in> star {[c] | c. P c}} = {w. w \<noteq> [] \<and> (\<forall>c\<in>set w. P c)}"
proof (intro set_eqI iffI)
  fix w assume "w \<in> {u @ v | u v. u \<in> {[c] | c. P c} \<and> v \<in> star {[c] | c. P c}}"
  then show "w \<in> {w. w \<noteq> [] \<and> (\<forall>c\<in>set w. P c)}"
    by (auto simp: star_class)
next
  fix w assume "w \<in> {w. w \<noteq> [] \<and> (\<forall>c\<in>set w. P c)}"
  then obtain a w' where w: "w = a # w'" and a: "P a" and w': "\<forall>c\<in>set w'. P c"
    by (cases w) auto
  have "[a] \<in> {[c] | c. P c}" using a by blast
  moreover have "w' \<in> star {[c] | c. P c}" using w' by (simp add: star_class)
  ultimately have "[a] @ w' \<in> {u @ v | u v. u \<in> {[c] | c. P c} \<and> v \<in> star {[c] | c. P c}}"
    by blast
  then show "w \<in> {u @ v | u v. u \<in> {[c] | c. P c} \<and> v \<in> star {[c] | c. P c}}"
    using w by simp
qed

lemma lang_Plus_NotIn: "lang (Plus (NotIn cs)) = {w. w \<noteq> [] \<and> (\<forall>c\<in>set w. c \<notin> set cs)}"
  using lang_Plus_class[of "\<lambda>c. c \<notin> set cs"] by (simp add: Plus_def)

lemma lang_Plus_In: "lang (Plus (In cs)) = {w. w \<noteq> [] \<and> (\<forall>c\<in>set w. c \<in> set cs)}"
  using lang_Plus_class[of "\<lambda>c. c \<in> set cs"] by (simp add: Plus_def)

lemma lang_Seq_iff: "w \<in> lang (Seq r s) \<longleftrightarrow> (\<exists>u v. w = u @ v \<and> u \<in> lang r \<and> v \<in> lang s)"
  by auto

lemma lang_In_single: "w \<in> lang (In [c]) \<longleftrightarrow> w = [c]"
  by auto

lemma lang_Star_any: "lang (Star (NotIn [])) = UNIV"
  using star_class[of "\<lambda>c. True"] by simp

lemma email_part_lang: "w \<in> lang (Plus (NotIn (js_space @ ''@''))) \<longleftrightarrow> email_part w"
  by (auto simp: lang_Plus_NotIn email_part_def)

lemma email_re_shape: "test_anchored email_re s \<longleftrightarrow> local_at_domain_tld s"
  unfolding test_anchored_def accepts_lang email_re_def local_at_domain_tld_def
    lang_Seq_iff lang_In_single email_part_lang
  by (metis append_Cons append_Nil)

lemma test_search_class: "test_search (In cs) s \<longleftrightarrow> (\<exists>c\<in>set s. c \<in> set cs)"
proof
  assume "test_search (In cs) s"
  then obtain u c v where "s = u @ [c] @ v" "c \<in> set cs"
    unfolding test_search_def accepts_lang lang_Seq_iff by auto
  then show "\<exists>c\<in>set s. c \<in> set cs" by auto
next
  assume "\<exists>c\<in>set s. c \<in> set cs"
  then obtain c where "c \<in> set s" "c \<in> set cs" by blast
  then obtain u v where "s = u @ c # v" by (auto simp: in_set_conv_decomp)
  then have "s = u @ [c] @ v" by simp
  moreover have "[c] \<in> lang (In cs)" using \<open>c \<in> set cs\<close> by simp
  ultimately show "test_search (In cs) s"
    unfolding test_search_def accepts_lang lang_Seq_iff lang_Star_any by blast
qed

lemma test_whitelist: "test_anchored whitelist_re s \<longleftrightarrow> s \<noteq> [] \<and> (\<forall>c\<in>set s. c \<in> set whitelist)"
  by (simp add: test_anchored_def accepts_lang whitelist_re_def lang_Plus_In)

section \<open>Validation engine: properties\<close>

lemma validateRule_fails: "validateRule rule v = (if rule_fails rule v then message rule else [])"
  by (cases v rule: falsy.cases) (auto simp: rule_fails_def split: ValidationType.splits)

lemma validateRules_find:
  "validateRules rules v =
     (case find (\<lambda>r. rule_fails r v \<and> message r \<noteq> []) rules of None \<Rightarrow> [] | Some r \<Rightarrow> message r)"
  by (induction rules) (auto simp: validateRule_fails simp del: validateRule.simps)

lemma validateRules_append:
  "validateRules (pre @ post) v =
     (if validateRules pre v \<noteq> [] then validateRules pre v else validateRules post v)"
  by (induction pre) (auto simp: Let_def simp del: validateRule.simps)

lemma validateRules_Arr:
  "validateRules rules (Some (Arr xs)) \<noteq> [] \<Longrightarrow>
     xs = [] \<and> (\<exists>r\<in>set rules. rule_type r = required \<and> validateRules rules (Some (Arr xs)) = message r)"
  by (induction rules) (auto simp: Let_def split: ValidationType.splits if_splits)

text \<open>
  C1, as the code has it: \<^const>\<open>validateField\<close> goes through the rules in declaration order
  and returns the message of the first rule that fails with a non-empty message, the empty
  string when there is none; a failing rule whose message is empty counts as passed. The
  rules after the one that decides cannot influence the result. When every message is
  non-empty, the result is the message of the first failing rule, and it is empty exactly
  when no rule fails.
\<close>

theorem validateField_first_message:
  "validateField field v =
     (case find (\<lambda>r. rule_fails r v \<and> message r \<noteq> []) (validations field) of
        None \<Rightarrow> [] | Some r \<Rightarrow> message r)
   \<and> (\<forall>pre r post. validations field = pre @ r # post \<and> validateRules pre v = []
         \<and> rule_fails r v \<and> message r \<noteq> [] \<longrightarrow> validateField field v = message r)
   \<and> ((\<forall>r\<in>set (validations field). message r \<noteq> []) \<longrightarrow>
        validateField field v =
          (case find (\<lambda>r. rule_fails r v) (validations field) of None \<Rightarrow> [] | Some r \<Rightarrow> message r)
        \<and> (validateField field v = [] \<longleftrightarrow> (\<forall>r\<in>set (validations field). \<not> rule_fails r v)))"
proof (intro conjI allI impI)
  show "validateField field v =
     (case find (\<lambda>r. rule_fails r v \<and> message r \<noteq> []) (validations field) of
        None \<Rightarrow> [] | Some r \<Rightarrow> message r)"
    by (simp add: validateField_def validateRules_find)
next
  fix pre r post
  assume "validations field = pre @ r # post \<and> validateRules pre v = []
         \<and> rule_fails r v \<and> message r \<noteq> []"
  then show "validateField field v = message r"
    by (simp add: validateField_def validateRules_append validateRule_fails del: validateRule.simps)
next
  assume ne: "\<forall>r\<in>set (validations field). message r \<noteq> []"
  then have eq: "find (\<lambda>r. rule_fails r v \<and> message r \<noteq> []) (validations field)
      = find (\<lambda>r. rule_fails r v) (validations field)"
    by (intro find_cong) auto
  show "validateField field v =
          (case find (\<lambda>r. rule_fails r v) (validations field) of None \<Rightarrow> [] | Some r \<Rightarrow> message r)"
    by (simp add: validateField_def validateRules_find eq)
  show "validateField field v = [] \<longleftrightarrow> (\<forall>r\<in>set (validations field). \<not> rule_fails r v)"
    using ne
    by (auto simp: validateField_def validateRules_find eq find_None_iff find_Some_iff
        split: option.splits)
qed

text \<open>
  The rules \<open>[required, minLength(3)]\<close> with their default messages and the value \<open>""\<close>:
  both rules fail, and the result is the message of \<open>required\<close>.
\<close>

theorem validateField_first_message_witness:
  "validations (ex_text_field [ex_required, ex_minLength3]) = [] @ ex_required # [ex_minLength3]
   \<and> validateRules [] (Some (Str [])) = []
   \<and> rule_fails ex_required (Some (Str []))
   \<and> rule_fails ex_minLength3 (Some (Str []))
   \<and> message ex_required \<noteq> []
   \<and> validateField (ex_text_field [ex_required, ex_minLength3]) (Some (Str []))
       = ''This field is required''"
  using validateField_first_message [of "ex_text_field [ex_required, ex_minLength3]" "Some (Str [])"]
  by (simp add: rule_fails_def ex_required_def ex_minLength3_def ex_text_field_def)

text \<open>
  C1 as stated fails where a message has been edited to the empty string: on the value
  \<open>""\<close> the rule \<open>required\<close> fails, yet the result is the message of the second rule, and
  with \<open>required\<close> alone the result is empty although a rule fails.
\<close>

theorem validateField_first_failing_counterexample:
  "rule_fails ex_required_blank (Some (Str []))
   \<and> validateField (ex_text_field [ex_required_blank, ex_minLength3]) (Some (Str []))
       = message ex_minLength3
   \<and> validateField (ex_text_field [ex_required_blank, ex_minLength3]) (Some (Str []))
       \<noteq> message ex_required_blank
   \<and> validateField (ex_text_field [ex_required_blank]) (Some (Str [])) = []"
  by (simp add: validateField_def rule_fails_def ex_required_blank_def ex_minLength3_def
      ex_text_field_def)

text \<open>
  C5: on a string value an email rule fails exactly when the string is non-empty and is not
  of the shape local@domain.tld, and then returns its message; a field whose only rule is an
  email rule accepts the empty string.
\<close>

theorem email_rule_fails_iff:
  "rule_type rule = email \<longrightarrow>
     (rule_fails rule (Some (Str s)) \<longleftrightarrow> s \<noteq> [] \<and> \<not> local_at_domain_tld s)
   \<and> validateRule rule (Some (Str s))
       = (if s \<noteq> [] \<and> \<not> local_at_domain_tld s then message rule else [])
   \<and> (validations field = [rule] \<longrightarrow> validateField field (Some (Str [])) = [])"
  by (simp add: rule_fails_def email_re_shape validateField_def)

text \<open>\<open>"a@b.com"\<close> passes, \<open>"a@b"\<close> fails, and the empty string passes an email rule.\<close>

theorem email_rule_fails_iff_witness:
  "rule_type ex_email = email
   \<and> validations (ex_text_field [ex_email]) = [ex_email]
   \<and> validateField (ex_text_field [ex_email]) (Some (Str [])) = []
   \<and> validateRule ex_email (Some (Str ''a@b.com'')) = []
   \<and> local_at_domain_tld ''a@b.com''
   \<and> validateRule ex_email (Some (Str ''a@b'')) = ''Please enter a valid email address''
   \<and> \<not> local_at_domain_tld ''a@b''"
proof -
  have 1: "validateRule ex_email (Some (Str ''a@b.com'')) = []"
    by (simp add: ex_email_def email_re_def test_anchored_def Plus_def js_space_def)
  have 2: "validateRule ex_email (Some (Str ''a@b'')) = ''Please enter a valid email address''"
    by (simp add: ex_email_def email_re_def test_anchored_def Plus_def js_space_def)
  have t: "rule_type ex_email = email" by (simp add: ex_email_def)
  have m: "message ex_email = ''Please enter a valid email address''" by (simp add: ex_email_def)
  have v: "validations (ex_text_field [ex_email]) = [ex_email]" by (simp add: ex_text_field_def)
  from email_rule_fails_iff [of ex_email "''a@b.com''" "ex_text_field [ex_email]"] t v 1 m
  have 3: "local_at_domain_tld ''a@b.com''
      \<and> validateField (ex_text_field [ex_email]) (Some (Str [])) = []"
    by (simp split: if_splits)
  from email_rule_fails_iff [of ex_email "''a@b''" "ex_text_field [ex_email]"] t 2 m
  have 4: "\<not> local_at_domain_tld ''a@b''"
    by (simp split: if_splits)
  from 1 2 3 4 t v show ?thesis by simp
qed

text \<open>
  C6: on an array value, as on an absent one, every rule other than \<open>required\<close> (that is
  \<open>minLength\<close>, \<open>maxLength\<close>, \<open>email\<close> and \<open>password\<close>) returns the empty string, so a
  field can reject an array only through a \<open>required\<close> rule, and only the empty array.
\<close>

theorem array_value_only_required:
  "(rule_type rule \<noteq> required \<longrightarrow>
      validateRule rule (Some (Arr xs)) = [] \<and> \<not> rule_fails rule (Some (Arr xs))
      \<and> validateRule rule None = [])
   \<and> (validateField field (Some (Arr xs)) \<noteq> [] \<longrightarrow>
        xs = [] \<and> (\<exists>r\<in>set (validations field). rule_type r = required
                     \<and> validateField field (Some (Arr xs)) = message r))
   \<and> ((\<forall>r\<in>set (validations field). rule_type r \<noteq> required) \<longrightarrow>
        validateField field (Some (Arr xs)) = [])"
proof (intro conjI impI)
  show "validateRule rule (Some (Arr xs)) = []" if "rule_type rule \<noteq> required"
    using that by (simp split: ValidationType.splits)
  show "\<not> rule_fails rule (Some (Arr xs))" if "rule_type rule \<noteq> required"
    using that by (simp add: rule_fails_def split: ValidationType.splits)
  show "validateRule rule None = []" if "rule_type rule \<noteq> required"
    using that by (simp split: ValidationType.splits)
  show "xs = []" if "validateField field (Some (Arr xs)) \<noteq> []"
    using that validateRules_Arr by (auto simp: validateField_def)
  show "\<exists>r\<in>set (validations field). rule_type r = required
                     \<and> validateField field (Some (Arr xs)) = message r"
    if "validateField field (Some (Arr xs)) \<noteq> []"
    using that validateRules_Arr unfolding validateField_def by blast
  show "validateField field (Some (Arr xs)) = []"
    if "\<forall>r\<in>set (validations field). rule_type r \<noteq> required"
    using that validateRules_Arr unfolding validateField_def by blast
qed

text \<open>
  A checkbox field with all five rules rejects the empty selection with the message of
  \<open>required\<close> and accepts a selection of two; without \<open>required\<close> it accepts the empty one.
\<close>

theorem array_value_only_required_witness:
  "rule_type ex_minLength3 \<noteq> required
   \<and> validateRule ex_minLength3 (Some (Arr [''red''])) = []
   \<and> validateField (ex_checkbox_field [ex_minLength3, ex_maxLength1, ex_email, ex_password, ex_required])
        (Some (Arr [])) = ''This field is required''
   \<and> validateField (ex_checkbox_field [ex_minLength3, ex_maxLength1, ex_email, ex_password, ex_required])
        (Some (Arr [''red'', ''green''])) = []
   \<and> validateField (ex_checkbox_field [ex_minLength3, ex_maxLength1, ex_email, ex_password])
        (Some (Arr [])) = []"
  using array_value_only_required [of ex_minLength3 "[''red'']"
      "ex_checkbox_field [ex_minLength3, ex_maxLength1, ex_email, ex_password]" ]
  by (simp add: validateField_def ex_checkbox_field_def ex_minLength3_def ex_maxLength1_def
      ex_email_def ex_password_def ex_required_def)

section \<open>The patterns of the two escape functions\<close>

lemma RegExp_plain: "c \<notin> set regexp_special \<Longrightarrow> RegExp (c # rest) = map_option ((#) (Literal c)) (RegExp rest)"
  by (cases rest) (auto simp: regexp_special_def)

lemma RegExp_dot: "RegExp (CHR ''.'' # rest) = map_option ((#) Dot) (RegExp rest)"
  by (cases rest) (auto simp: backslash_def)

lemma RegExp_escape:
  "d \<in> set regexp_special \<or> d = CHR ''#'' \<Longrightarrow>
     RegExp (backslash # d # rest) = map_option ((#) (Literal d)) (RegExp rest)"
  by simp

lemma RegExp_escapedLabel: "RegExp (escapedLabel l) = Some (map Literal l)"
proof (induction l)
  case Nil
  show ?case by (simp add: escapedLabel_def)
next
  case (Cons c l)
  have step: "escapedLabel (c # l) = (if c \<in> set regexp_special then [backslash, c] else [c]) @ escapedLabel l"
    by (simp add: escapedLabel_def)
  show ?case
  proof (cases "c \<in> set regexp_special")
    case True
    then show ?thesis using Cons by (simp add: step RegExp_escape del: RegExp.simps)
  next
    case False
    then show ?thesis using Cons by (simp add: step RegExp_plain del: RegExp.simps)
  qed
qed

lemma RegExp_garbled:
  "RegExp (backslash # ''### Continue with remaining files...'' @ rest) = map_option ((@) garbled) (RegExp rest)"
proof -
  have plain: "\<And>c r. c \<in> set ''# Continuewithrmagfls'' \<Longrightarrow> RegExp (c # r) = map_option ((#) (Literal c)) (RegExp r)"
    by (rule RegExp_plain) (auto simp: regexp_special_def backslash_def)
  show ?thesis
    by (cases "RegExp rest")
      (simp_all add: RegExp_escape RegExp_dot plain garbled_def option.map_comp comp_def
        del: RegExp.simps)
qed

lemma RegExp_escapedLabel_FormPreview:
  "RegExp (escapedLabel_FormPreview l) =
     Some (concat (map (\<lambda>c. if c \<in> set regexp_special then garbled else [Literal c]) l))"
proof (induction l)
  case Nil
  show ?case by (simp add: escapedLabel_FormPreview_def)
next
  case (Cons c l)
  have step: "escapedLabel_FormPreview (c # l) =
      (if c \<in> set regexp_special then backslash # ''### Continue with remaining files...'' else [c])
        @ escapedLabel_FormPreview l"
    by (simp add: escapedLabel_FormPreview_def)
  show ?case
  proof (cases "c \<in> set regexp_special")
    case True
    then show ?thesis using Cons RegExp_garbled[of "escapedLabel_FormPreview l"]
      by (simp add: step del: RegExp.simps)
  next
    case False
    then show ?thesis using Cons by (simp add: step RegExp_plain del: RegExp.simps)
  qed
qed

section \<open>Derived-field evaluator: properties\<close>

lemma deriveField_unfold:
  "deriveField P esc fs newData field =
     (if derived_with_formula field then
        (case derivedFormula field of
           None \<Rightarrow> newData
         | Some formula0 \<Rightarrow>
             (case substitute P esc field newData fs formula0 of
                None \<Rightarrow> newData
              | Some formula \<Rightarrow>
                  if test_anchored whitelist_re formula then
                    (case evaluate P formula of
                       None \<Rightarrow> newData
                     | Some result \<Rightarrow> newData(field_id field \<mapsto> Str result))
                  else newData))
      else newData)"
  by (simp add: deriveField_def deriveField_traced_def split: option.splits)

lemma foldl_traced:
  "fst (foldl (\<lambda>(newData, calls) field.
              case deriveField_traced P esc fs newData field of
                (newData', called) \<Rightarrow> (newData', calls @ called)) (d, tr) gs)
     = foldl (deriveField P esc fs) d gs"
  by (induction gs arbitrary: d tr) (simp_all add: deriveField_def split: prod.splits)

lemma derive_all_unfold: "derive_all P esc fs data = foldl (deriveField P esc fs) data fs"
  by (simp add: derive_all_def derive_all_traced_def foldl_traced)

lemma deriveField_other: "k \<noteq> field_id field \<Longrightarrow> deriveField P esc fs d field k = d k"
  by (simp add: deriveField_unfold split: option.splits)

lemma deriveField_idle: "\<not> derived_with_formula field \<Longrightarrow> deriveField P esc fs d field = d"
  by (simp add: deriveField_unfold)

lemma deriveField_frame:
  "derived_with_formula field \<longrightarrow> field_id field \<noteq> k \<Longrightarrow> deriveField P esc fs d field k = d k"
  by (cases "derived_with_formula field") (auto simp: deriveField_other deriveField_idle)

lemma foldl_deriveField_frame:
  "\<forall>f\<in>set gs. derived_with_formula f \<longrightarrow> field_id f \<noteq> k \<Longrightarrow>
     foldl (deriveField P esc fs) d gs k = d k"
  by (induction gs arbitrary: d) (simp_all add: deriveField_frame)

lemma foldl_deriveField_other_ids:
  "\<forall>f\<in>set gs. field_id f \<noteq> k \<Longrightarrow> foldl (deriveField P esc fs) d gs k = d k"
  by (rule foldl_deriveField_frame) simp

lemma derive_all_at:
  assumes "distinct (map field_id fs)" and "fs = pre @ D # post"
  shows "derive_all P esc fs data (field_id D)
           = deriveField P esc fs (foldl (deriveField P esc fs) data pre) D (field_id D)"
    and "foldl (deriveField P esc fs) data pre (field_id D) = data (field_id D)"
proof -
  from assms have "field_id D \<notin> field_id ` set pre" and "field_id D \<notin> field_id ` set post"
    by auto
  then have pre: "\<forall>f\<in>set pre. field_id f \<noteq> field_id D"
    and post: "\<forall>f\<in>set post. field_id f \<noteq> field_id D"
    by (metis imageI)+
  have "derive_all P esc fs data
      = foldl (deriveField P esc fs) (deriveField P esc fs (foldl (deriveField P esc fs) data pre) D) post"
    unfolding derive_all_unfold using foldl_append[of "deriveField P esc fs" data pre "D # post"]
    by (simp add: assms(2)[symmetric])
  then show "derive_all P esc fs data (field_id D)
           = deriveField P esc fs (foldl (deriveField P esc fs) data pre) D (field_id D)"
    using post by (simp add: foldl_deriveField_other_ids)
  show "foldl (deriveField P esc fs) data pre (field_id D) = data (field_id D)"
    using pre by (rule foldl_deriveField_other_ids)
qed

lemma deriveField_rejected:
  "substituted P esc fs d D = Some formula \<Longrightarrow> not_evaluable P formula \<Longrightarrow> deriveField P esc fs d D = d"
  by (auto simp: deriveField_unfold substituted_def not_evaluable_def test_whitelist split: option.splits)

lemma derive_all_rejected:
  assumes "distinct (map field_id fs)" and "fs = pre @ D # post"
    and "substituted P esc fs (foldl (deriveField P esc fs) data pre) D = Some formula"
    and "not_evaluable P formula"
  shows "derive_all P esc fs data (field_id D) = data (field_id D)"
  using derive_all_at[OF assms(1,2)] deriveField_rejected[OF assms(3,4)] by simp

lemma substitute_filter:
  "substitute P esc D d fs F = substitute P esc D d (filter (\<lambda>f. field_id f \<noteq> field_id D) fs) F"
proof (induction fs arbitrary: F)
  case Nil
  show ?case by simp
next
  case (Cons f fs)
  show ?case
  proof (cases "field_id f = field_id D")
    case True
    then show ?thesis using Cons.IH[of F] by simp
  next
    case False
    show ?thesis
    proof (cases "RegExp (esc (label f))")
      case None
      with False show ?thesis by simp
    next
      case (Some re)
      with False show ?thesis
        using Cons.IH[of "replace_g re (toString P (numericValue (fieldValue (d (field_id f))))) F"]
        by simp
    qed
  qed
qed


lemma substitute_self_only_aux:
  "(\<And>f. f \<in> set fs \<Longrightarrow> field_id f = field_id D) \<Longrightarrow> substitute P esc D d fs F = Some F"
proof (induction fs)
  case Nil
  show ?case by simp
next
  case (Cons g fs)
  have "field_id g = field_id D" by (rule Cons.prems) simp
  moreover have "substitute P esc D d fs F = Some F"
    by (rule Cons.IH, rule Cons.prems) simp
  ultimately show ?case by simp
qed

lemma substitute_self_only:
  "\<forall>f\<in>set fs. field_id f = field_id D \<Longrightarrow> substitute P esc D d fs F = Some F"
  by (rule substitute_self_only_aux) blast

lemma substitute_cong_data:
  "\<forall>f\<in>set fs. field_id f \<noteq> field_id D \<longrightarrow> d1 (field_id f) = d2 (field_id f) \<Longrightarrow>
     substitute P esc D d1 fs F = substitute P esc D d2 fs F"
proof (induction fs arbitrary: F)
  case Nil
  show ?case by simp
next
  case (Cons f fs)
  then have IH: "\<And>G. substitute P esc D d1 fs G = substitute P esc D d2 fs G"
    and here: "field_id f \<noteq> field_id D \<longrightarrow> d1 (field_id f) = d2 (field_id f)"
    by simp_all
  show ?case
  proof (cases "field_id f = field_id D")
    case True
    then show ?thesis by (simp add: IH)
  next
    case False
    with here have "d1 (field_id f) = d2 (field_id f)" by simp
    with False show ?thesis
      by (cases "RegExp (esc (label f))") (simp_all add: IH)
  qed
qed

lemma substitute_own_value:
  "substitute P esc D (d(field_id D := v)) fs F = substitute P esc D d fs F"
  by (rule substitute_cong_data) simp

lemma substitute_own_label:
  "substitute P esc D d (map (\<lambda>f. if field_id f = field_id D then f\<lparr>label := l\<rparr> else f) fs) F
     = substitute P esc D d fs F"
proof (induction fs arbitrary: F)
  case Nil
  show ?case by simp
next
  case (Cons f fs)
  show ?case
  proof (cases "field_id f = field_id D")
    case True
    then show ?thesis by (simp add: Cons.IH)
  next
    case False
    then show ?thesis
      by (cases "RegExp (esc (label f))") (simp_all add: Cons.IH)
  qed
qed

lemmas num_defs = numericValue_def isNaN_Number_def parseFloat_def test_anchored_def
  StringNumericLiteral_def StrDecimalLiteral_def StrUnsignedDecimalLiteral_def
  NonDecimalIntegerLiteral_def DecimalDigits_def ExponentPart_def Plus_def Opt_def
  js_space_def js_digit_def

lemmas ex_defs = ex_form_def ex_data_def ex_number_field_def ex_derived_field_def
  ex_platform_def ex_app_def ex_preview_def

lemmas pass_defs = updateDerivedFields_def FormPreview_updateDerivedFields_def derive_all_unfold
  deriveField_unfold derived_with_formula_def substituted_def not_evaluable_def
  escapedLabel_def escapedLabel_FormPreview_def regexp_special_def backslash_def
  whitelist_re_def whitelist_def

lemma numericValue_3: "numericValue (Str ''3'') = Parsed ''3''"
  by (simp add: num_defs)

lemma numericValue_4: "numericValue (Str ''4'') = Parsed ''4''"
  by (simp add: num_defs)

lemma numericValue_old: "numericValue (Str ''old'') = Zero_literal"
  by (simp add: num_defs)

lemma numericValue_empty: "numericValue (Str []) = NaN"
  by (simp add: num_defs)

lemma derived_ids_differ:
  assumes "distinct (map field_id fs)" and "f \<in> set fs" and "\<not> derived_with_formula f"
  shows "\<forall>g\<in>set fs. derived_with_formula g \<longrightarrow> field_id g \<noteq> field_id f"
proof (intro ballI impI notI)
  fix g assume "g \<in> set fs" and d: "derived_with_formula g" and "field_id g = field_id f"
  with assms(1,2) have "g = f" by (meson distinct_map inj_onD)
  with d assms(3) show False by simp
qed

text \<open>
  C10: the recompute pass writes only entries of derived fields. An entry whose key is not
  the id of a derived field with a non-empty formula is after the pass what it was before;
  in a form with unique field ids this holds for the entry of every field that is not
  derived or has an empty formula. The error map is not touched. Both sources: the
  component's \<^const>\<open>updateDerivedFields\<close> and the class's
  \<^const>\<open>FormPreview_updateDerivedFields\<close>.
\<close>

theorem pass_writes_only_derived:
  "((\<forall>f\<in>set (form_fields frm). derived_with_formula f \<longrightarrow> field_id f \<noteq> k) \<longrightarrow>
      app_formData (updateDerivedFields P data frm st) k = data k)
   \<and> (distinct (map field_id (form_fields frm)) \<and> f \<in> set (form_fields frm)
        \<and> \<not> derived_with_formula f \<longrightarrow>
      app_formData (updateDerivedFields P data frm st) (field_id f) = data (field_id f))
   \<and> app_formErrors (updateDerivedFields P data frm st) = app_formErrors st
   \<and> ((\<forall>f\<in>set (form_fields (form this)). derived_with_formula f \<longrightarrow> field_id f \<noteq> k) \<longrightarrow>
      formData (FormPreview_updateDerivedFields P this) k = formData this k)
   \<and> (distinct (map field_id (form_fields (form this))) \<and> g \<in> set (form_fields (form this))
        \<and> \<not> derived_with_formula g \<longrightarrow>
      formData (FormPreview_updateDerivedFields P this) (field_id g) = formData this (field_id g))
   \<and> formErrors (FormPreview_updateDerivedFields P this) = formErrors this"
proof (intro conjI impI)
  show "app_formErrors (updateDerivedFields P data frm st) = app_formErrors st"
    by (simp add: updateDerivedFields_def)
  show "formErrors (FormPreview_updateDerivedFields P this) = formErrors this"
    by (simp add: FormPreview_updateDerivedFields_def)
  show "app_formData (updateDerivedFields P data frm st) k = data k"
    if "\<forall>f\<in>set (form_fields frm). derived_with_formula f \<longrightarrow> field_id f \<noteq> k"
    using foldl_deriveField_frame[OF that] by (simp add: updateDerivedFields_def derive_all_unfold)
  show "formData (FormPreview_updateDerivedFields P this) k = formData this k"
    if "\<forall>f\<in>set (form_fields (form this)). derived_with_formula f \<longrightarrow> field_id f \<noteq> k"
    using foldl_deriveField_frame[OF that]
    by (simp add: FormPreview_updateDerivedFields_def derive_all_unfold)
  show "app_formData (updateDerivedFields P data frm st) (field_id f) = data (field_id f)"
    if "distinct (map field_id (form_fields frm)) \<and> f \<in> set (form_fields frm)
        \<and> \<not> derived_with_formula f"
  proof -
    from that have "\<forall>g\<in>set (form_fields frm). derived_with_formula g \<longrightarrow> field_id g \<noteq> field_id f"
      using derived_ids_differ by blast
    from foldl_deriveField_frame[OF this] show ?thesis
      by (simp add: updateDerivedFields_def derive_all_unfold)
  qed
  show "formData (FormPreview_updateDerivedFields P this) (field_id g) = formData this (field_id g)"
    if "distinct (map field_id (form_fields (form this))) \<and> g \<in> set (form_fields (form this))
        \<and> \<not> derived_with_formula g"
  proof -
    from that have "\<forall>h\<in>set (form_fields (form this)). derived_with_formula h \<longrightarrow> field_id h \<noteq> field_id g"
      using derived_ids_differ by blast
    from foldl_deriveField_frame[OF this] show ?thesis
      by (simp add: FormPreview_updateDerivedFields_def derive_all_unfold)
  qed
qed

text \<open>
  On the form \<open>A\<close>, \<open>B\<close>, \<open>C = A + B\<close> with the values 3 and 4 the pass leaves the
  entry of \<open>A\<close> and the error map alone and writes 7 to \<open>C\<close>.
\<close>

theorem pass_writes_only_derived_witness:
  "distinct (map field_id (form_fields (ex_form ''A + B'')))
   \<and> ex_number_field ''a'' ''A'' \<in> set (form_fields (ex_form ''A + B''))
   \<and> \<not> derived_with_formula (ex_number_field ''a'' ''A'')
   \<and> app_formData (updateDerivedFields ex_platform (ex_data ''3'' ''4'') (ex_form ''A + B'') (ex_app ''A + B'')) ''a''
       = Some (Str ''3'')
   \<and> app_formData (updateDerivedFields ex_platform (ex_data ''3'' ''4'') (ex_form ''A + B'') (ex_app ''A + B'')) ''c''
       = Some (Str ''7'')
   \<and> app_formErrors (updateDerivedFields ex_platform (ex_data ''3'' ''4'') (ex_form ''A + B'') (ex_app ''A + B''))
       = [(''a'', ''stale'')]
   \<and> formData (FormPreview_updateDerivedFields ex_platform (ex_preview ''A + B'')) ''a'' = Some (Str ''3'')
   \<and> formData (FormPreview_updateDerivedFields ex_platform (ex_preview ''A + B'')) ''c'' = Some (Str ''7'')
   \<and> formErrors (FormPreview_updateDerivedFields ex_platform (ex_preview ''A + B'')) = [(''a'', ''stale'')]"
proof -
  have h: "distinct (map field_id (form_fields (ex_form ''A + B'')))
      \<and> ex_number_field ''a'' ''A'' \<in> set (form_fields (ex_form ''A + B''))
      \<and> \<not> derived_with_formula (ex_number_field ''a'' ''A'')"
    by (simp add: ex_defs derived_with_formula_def)
  have h': "distinct (map field_id (form_fields (form (ex_preview ''A + B''))))
      \<and> ex_number_field ''a'' ''A'' \<in> set (form_fields (form (ex_preview ''A + B'')))
      \<and> \<not> derived_with_formula (ex_number_field ''a'' ''A'')"
    by (simp add: ex_defs derived_with_formula_def)
  have a: "field_id (ex_number_field ''a'' ''A'') = ''a''" by (simp add: ex_defs)
  have c1: "app_formData (updateDerivedFields ex_platform (ex_data ''3'' ''4'') (ex_form ''A + B'') (ex_app ''A + B'')) ''c''
       = Some (Str ''7'')"
    by (simp add: pass_defs ex_defs numericValue_3 numericValue_4 numericValue_old
        test_anchored_def Plus_def js_digit_def)
  have c2: "formData (FormPreview_updateDerivedFields ex_platform (ex_preview ''A + B'')) ''c'' = Some (Str ''7'')"
    by (simp add: pass_defs ex_defs numericValue_3 numericValue_4 numericValue_old
        test_anchored_def Plus_def js_digit_def)
  have d: "ex_data ''3'' ''4'' ''a'' = Some (Str ''3'')" "formData (ex_preview ''A + B'') ''a'' = Some (Str ''3'')"
    "app_formErrors (ex_app ''A + B'') = [(''a'', ''stale'')]" "formErrors (ex_preview ''A + B'') = [(''a'', ''stale'')]"
    by (simp_all add: ex_defs)
  from pass_writes_only_derived [of "ex_form ''A + B''" "''a''" ex_platform "ex_data ''3'' ''4''"
      "ex_app ''A + B''" "ex_number_field ''a'' ''A''" "ex_preview ''A + B''" "ex_number_field ''a'' ''A''"]
    h h' a d
  have "app_formData (updateDerivedFields ex_platform (ex_data ''3'' ''4'') (ex_form ''A + B'') (ex_app ''A + B'')) ''a''
       = Some (Str ''3'')
     \<and> app_formErrors (updateDerivedFields ex_platform (ex_data ''3'' ''4'') (ex_form ''A + B'') (ex_app ''A + B''))
       = [(''a'', ''stale'')]
     \<and> formData (FormPreview_updateDerivedFields ex_platform (ex_preview ''A + B'')) ''a'' = Some (Str ''3'')
     \<and> formErrors (FormPreview_updateDerivedFields ex_platform (ex_preview ''A + B'')) = [(''a'', ''stale'')]"
    by simp
  with h c1 c2 show ?thesis by simp
qed

lemma match_at_take:
  "match_at re s \<Longrightarrow> c \<in> set (take (length re) s) \<Longrightarrow> \<exists>a\<in>set re. atom_matches a c"
proof (induction re s rule: match_at.induct)
  case (1 s)
  then show ?case by simp
next
  case (2 a as)
  then show ?case by simp
next
  case (3 a as x xs)
  then show ?case by auto
qed

lemma replace_g_keeps:
  "c \<in> set s \<Longrightarrow> \<forall>a\<in>set re. \<not> atom_matches a c \<Longrightarrow> c \<in> set (replace_g re r s)"
proof (induction re r s rule: replace_g.induct)
  case (1 re r)
  then show ?case by simp
next
  case (2 re r x xs)
  show ?case
  proof (cases "re = []")
    case True
    with 2 show ?thesis by auto
  next
    case False
    show ?thesis
    proof (cases "match_at re (x # xs)")
      case True
      have "c \<notin> set (take (length re) (x # xs))"
        using match_at_take[OF True] "2.prems"(2) by blast
      moreover have "x # xs = take (length re) (x # xs) @ drop (length re) (x # xs)" by simp
      ultimately have "c \<in> set (drop (length re) (x # xs))"
        using "2.prems"(1) by (metis Un_iff set_append)
      moreover have "drop (length re) (x # xs) = drop (length re - 1) xs"
        using False by (cases re) simp_all
      ultimately have "c \<in> set (drop (length re - 1) xs)" by simp
      from "2.IH"(2)[OF False True this "2.prems"(2)] False True show ?thesis by simp
    next
      case nomatch: False
      show ?thesis
      proof (cases "c = x")
        case True
        with False nomatch show ?thesis by simp
      next
        case cx: False
        with "2.prems"(1) have "c \<in> set xs" by simp
        from "2.IH"(3)[OF False nomatch this "2.prems"(2)] False nomatch show ?thesis by simp
      qed
    qed
  qed
qed

lemma substitute_keeps:
  assumes "substitute P esc D d fs F = Some F'" and "c \<in> set F"
    and "\<forall>f\<in>set fs. field_id f \<noteq> field_id D \<longrightarrow>
           (\<forall>re. RegExp (esc (label f)) = Some re \<longrightarrow> (\<forall>a\<in>set re. \<not> atom_matches a c))"
  shows "c \<in> set F'"
  using assms
proof (induction fs arbitrary: F)
  case Nil
  then show ?case by simp
next
  case (Cons f fs)
  from Cons.prems(3) have rest: "\<forall>f\<in>set fs. field_id f \<noteq> field_id D \<longrightarrow>
           (\<forall>re. RegExp (esc (label f)) = Some re \<longrightarrow> (\<forall>a\<in>set re. \<not> atom_matches a c))"
    by simp
  show ?case
  proof (cases "field_id f = field_id D")
    case True
    with Cons.prems(1) have "substitute P esc D d fs F = Some F'" by simp
    from Cons.IH[OF this Cons.prems(2) rest] show ?thesis .
  next
    case False
    with Cons.prems(1) obtain re where re: "RegExp (esc (label f)) = Some re"
      and s: "substitute P esc D d fs
               (replace_g re (toString P (numericValue (fieldValue (d (field_id f))))) F) = Some F'"
      by (auto split: option.splits)
    have "\<forall>a\<in>set re. \<not> atom_matches a c"
      using Cons.prems(3) False re by simp
    then have "c \<in> set (replace_g re (toString P (numericValue (fieldValue (d (field_id f))))) F)"
      using Cons.prems(2) by (simp add: replace_g_keeps)
    from Cons.IH[OF s this rest] show ?thesis .
  qed
qed

lemma substitute_escapedLabel_total: "\<exists>F'. substitute P escapedLabel D d fs F = Some F'"
  by (induction fs arbitrary: F) (simp_all add: RegExp_escapedLabel)

lemma substitute_escapedLabel_FormPreview_total:
  "\<exists>F'. substitute P escapedLabel_FormPreview D d fs F = Some F'"
  by (induction fs arbitrary: F) (simp_all add: RegExp_escapedLabel_FormPreview)

lemma substituted_keeps_escapedLabel:
  assumes "derivedFormula D = Some F" and "c \<in> set F"
    and "\<forall>f\<in>set fs. field_id f \<noteq> field_id D \<longrightarrow> c \<notin> set (label f)"
  shows "\<exists>F'. substituted P escapedLabel fs d D = Some F' \<and> c \<in> set F'"
proof -
  obtain F' where F': "substitute P escapedLabel D d fs F = Some F'"
    using substitute_escapedLabel_total by blast
  have "c \<in> set F'"
  proof (rule substitute_keeps[OF F' assms(2)], intro ballI impI allI)
    fix f re a
    assume "f \<in> set fs" "field_id f \<noteq> field_id D" "RegExp (escapedLabel (label f)) = Some re"
      and a: "a \<in> set re"
    with assms(3) have "c \<notin> set (label f)" and "re = map Literal (label f)"
      by (auto simp: RegExp_escapedLabel)
    with a show "\<not> atom_matches a c" by auto
  qed
  with F' assms(1) show ?thesis by (simp add: substituted_def)
qed

lemma substituted_keeps_escapedLabel_FormPreview:
  assumes "derivedFormula D = Some F" and "c \<in> set F"
    and "\<forall>f\<in>set fs. field_id f \<noteq> field_id D \<longrightarrow>
           c \<notin> set (label f) \<and> set (label f) \<inter> set regexp_special = {}"
  shows "\<exists>F'. substituted P escapedLabel_FormPreview fs d D = Some F' \<and> c \<in> set F'"
proof -
  obtain F' where F': "substitute P escapedLabel_FormPreview D d fs F = Some F'"
    using substitute_escapedLabel_FormPreview_total by blast
  have "c \<in> set F'"
  proof (rule substitute_keeps[OF F' assms(2)], intro ballI impI allI)
    fix f re a
    assume f: "f \<in> set fs" "field_id f \<noteq> field_id D"
      and "RegExp (escapedLabel_FormPreview (label f)) = Some re"
      and a: "a \<in> set re"
    then have re: "re = concat (map (\<lambda>c. if c \<in> set regexp_special then garbled else [Literal c]) (label f))"
      by (simp add: RegExp_escapedLabel_FormPreview)
    from f assms(3) have "c \<notin> set (label f)" and ns: "\<forall>x\<in>set (label f). x \<notin> set regexp_special"
      by auto
    from ns have "map (\<lambda>c. if c \<in> set regexp_special then garbled else [Literal c]) (label f)
        = map (\<lambda>c. [Literal c]) (label f)"
      by (intro map_cong) auto
    with re have "set re = Literal ` set (label f)" by auto
    with \<open>c \<notin> set (label f)\<close> a show "\<not> atom_matches a c" by auto
  qed
  with F' assms(1) show ?thesis by (simp add: substituted_def)
qed

lemma derive_all_foreign_char:
  assumes dist: "distinct (map field_id fs)" and D: "D \<in> set fs"
    and F: "derivedFormula D = Some F" and c: "c \<in> set F" "c \<notin> set whitelist"
    and keeps: "\<And>d. \<exists>F'. substituted P esc fs d D = Some F' \<and> c \<in> set F'"
  shows "derive_all P esc fs data (field_id D) = data (field_id D)"
proof -
  from D obtain pre post where split: "fs = pre @ D # post"
    by (auto simp: in_set_conv_decomp)
  from keeps[of "foldl (deriveField P esc fs) data pre"]
  obtain F' where F': "substituted P esc fs (foldl (deriveField P esc fs) data pre) D = Some F'"
    and "c \<in> set F'" by blast
  with c(2) have "not_evaluable P F'" by (auto simp: not_evaluable_def)
  from derive_all_rejected[OF dist split F' this] show ?thesis .
qed

lemma ex_fields_split:
  "form_fields (ex_form F) = [ex_number_field ''a'' ''A'', ex_number_field ''b'' ''B''] @ ex_derived_field ''c'' ''C'' F # []"
  "distinct (map field_id (form_fields (ex_form F)))"
  by (simp_all add: ex_defs)

lemma ex_before_C:
  "foldl (deriveField P esc (form_fields (ex_form F))) d [ex_number_field ''a'' ''A'', ex_number_field ''b'' ''B''] = d"
  by (simp add: deriveField_idle derived_with_formula_def ex_number_field_def)

lemma deriveField_traced_whitelisted:
  "s \<in> set (snd (deriveField_traced P esc fs d field)) \<Longrightarrow> s \<noteq> [] \<and> set s \<subseteq> set whitelist"
  by (auto simp: deriveField_traced_def test_whitelist split: option.splits if_splits)

lemma foldl_traced_whitelisted:
  assumes "\<forall>s\<in>set tr. s \<noteq> [] \<and> set s \<subseteq> set whitelist"
  shows "\<forall>s\<in>set (snd (foldl (\<lambda>(newData, calls) field.
              case deriveField_traced P esc fs newData field of
                (newData', called) \<Rightarrow> (newData', calls @ called)) (d, tr) gs)).
           s \<noteq> [] \<and> set s \<subseteq> set whitelist"
  using assms
proof (induction gs arbitrary: d tr)
  case Nil
  then show ?case by simp
next
  case (Cons g gs)
  obtain d' called where step: "deriveField_traced P esc fs d g = (d', called)"
    by (cases "deriveField_traced P esc fs d g")
  then have "\<forall>s\<in>set called. s \<noteq> [] \<and> set s \<subseteq> set whitelist"
    using deriveField_traced_whitelisted[of _ P esc fs d g] by simp
  with Cons.prems have "\<forall>s\<in>set (tr @ called). s \<noteq> [] \<and> set s \<subseteq> set whitelist" by auto
  from Cons.IH[OF this] show ?case by (simp add: step)
qed

lemma Function_calls_whitelisted:
  "\<forall>s\<in>set (Function_calls P esc fs data). s \<noteq> [] \<and> set s \<subseteq> set whitelist"
  unfolding Function_calls_def derive_all_traced_def
  by (rule foldl_traced_whitelisted) simp

lemma deriveField_traced_rejected:
  "substituted P esc fs d D = Some formula \<Longrightarrow> \<exists>c\<in>set formula. c \<notin> set whitelist \<Longrightarrow>
   deriveField_traced P esc fs d D = (d, [])"
  by (auto simp: deriveField_traced_def substituted_def test_whitelist split: option.splits)

text \<open>
  C3: when the formula of a derived field \<open>D\<close>, after the substitution step, has a character
  outside digits, \<open>+ - * / ( ) .\<close> and space, or when its evaluation throws, the step for
  \<open>D\<close> changes nothing, and in a form with unique field ids the entry of \<open>D\<close> after the
  pass is the one before the pass. A step whose formula has such a character passes nothing
  to \<^verbatim>\<open>Function\<close>, and every string a pass does hand to \<^verbatim>\<open>Function\<close> is made of
  whitelisted characters. In particular a formula such as \<open>A; alert(1)\<close>, with a
  character outside the whitelist that no other field has in its label, is never evaluated.
  Both sources (for the class, the labels of the other fields hold no special character of
  regular expressions).
\<close>

theorem unsafe_formula_keeps_value:
  "(substituted P esc fs d D = Some formula \<and> not_evaluable P formula \<longrightarrow>
      deriveField P esc fs d D = d)
   \<and> (distinct (map field_id (form_fields frm)) \<and> form_fields frm = pre @ D # post
        \<and> substituted P escapedLabel (form_fields frm)
             (foldl (deriveField P escapedLabel (form_fields frm)) data pre) D = Some formula
        \<and> not_evaluable P formula \<longrightarrow>
      app_formData (updateDerivedFields P data frm st) (field_id D) = data (field_id D))
   \<and> (distinct (map field_id (form_fields (form this))) \<and> form_fields (form this) = pre' @ D' # post'
        \<and> substituted P escapedLabel_FormPreview (form_fields (form this))
             (foldl (deriveField P escapedLabel_FormPreview (form_fields (form this))) (formData this) pre') D'
             = Some formula'
        \<and> not_evaluable P formula' \<longrightarrow>
      formData (FormPreview_updateDerivedFields P this) (field_id D') = formData this (field_id D'))
   \<and> (distinct (map field_id (form_fields frm)) \<and> E \<in> set (form_fields frm)
        \<and> derivedFormula E = Some formula0 \<and> c \<in> set formula0 \<and> c \<notin> set whitelist
        \<and> (\<forall>f\<in>set (form_fields frm). field_id f \<noteq> field_id E \<longrightarrow> c \<notin> set (label f)) \<longrightarrow>
      app_formData (updateDerivedFields P data frm st) (field_id E) = data (field_id E))
   \<and> (distinct (map field_id (form_fields (form this))) \<and> E' \<in> set (form_fields (form this))
        \<and> derivedFormula E' = Some formula0' \<and> c' \<in> set formula0' \<and> c' \<notin> set whitelist
        \<and> (\<forall>f\<in>set (form_fields (form this)). field_id f \<noteq> field_id E' \<longrightarrow>
              c' \<notin> set (label f) \<and> set (label f) \<inter> set regexp_special = {}) \<longrightarrow>
      formData (FormPreview_updateDerivedFields P this) (field_id E') = formData this (field_id E'))
   \<and> (substituted P esc fs d D = Some formula \<and> (\<exists>c\<in>set formula. c \<notin> set whitelist) \<longrightarrow>
        snd (deriveField_traced P esc fs d D) = [])
   \<and> (\<forall>s\<in>set (Function_calls P esc fs data). s \<noteq> [] \<and> set s \<subseteq> set whitelist)"
proof (intro conjI impI)
  show "snd (deriveField_traced P esc fs d D) = []"
    if "substituted P esc fs d D = Some formula \<and> (\<exists>c\<in>set formula. c \<notin> set whitelist)"
    using that deriveField_traced_rejected[of P esc fs d D formula] by simp
  show "\<forall>s\<in>set (Function_calls P esc fs data). s \<noteq> [] \<and> set s \<subseteq> set whitelist"
    by (rule Function_calls_whitelisted)
  show "deriveField P esc fs d D = d"
    if "substituted P esc fs d D = Some formula \<and> not_evaluable P formula"
    using that deriveField_rejected by blast
  show "app_formData (updateDerivedFields P data frm st) (field_id D) = data (field_id D)"
    if "distinct (map field_id (form_fields frm)) \<and> form_fields frm = pre @ D # post
        \<and> substituted P escapedLabel (form_fields frm)
             (foldl (deriveField P escapedLabel (form_fields frm)) data pre) D = Some formula
        \<and> not_evaluable P formula"
  proof -
    from that have a: "distinct (map field_id (form_fields frm))"
      and b: "form_fields frm = pre @ D # post"
      and c: "substituted P escapedLabel (form_fields frm)
             (foldl (deriveField P escapedLabel (form_fields frm)) data pre) D = Some formula"
      and e: "not_evaluable P formula"
      by blast+
    from derive_all_rejected[OF a b c e] show ?thesis
      by (simp add: updateDerivedFields_def)
  qed
  show "formData (FormPreview_updateDerivedFields P this) (field_id D') = formData this (field_id D')"
    if "distinct (map field_id (form_fields (form this))) \<and> form_fields (form this) = pre' @ D' # post'
        \<and> substituted P escapedLabel_FormPreview (form_fields (form this))
             (foldl (deriveField P escapedLabel_FormPreview (form_fields (form this))) (formData this) pre') D'
             = Some formula'
        \<and> not_evaluable P formula'"
  proof -
    from that have a: "distinct (map field_id (form_fields (form this)))"
      and b: "form_fields (form this) = pre' @ D' # post'"
      and c: "substituted P escapedLabel_FormPreview (form_fields (form this))
             (foldl (deriveField P escapedLabel_FormPreview (form_fields (form this))) (formData this) pre') D'
             = Some formula'"
      and e: "not_evaluable P formula'"
      by blast+
    from derive_all_rejected[OF a b c e] show ?thesis
      by (simp add: FormPreview_updateDerivedFields_def)
  qed
  show "app_formData (updateDerivedFields P data frm st) (field_id E) = data (field_id E)"
    if "distinct (map field_id (form_fields frm)) \<and> E \<in> set (form_fields frm)
        \<and> derivedFormula E = Some formula0 \<and> c \<in> set formula0 \<and> c \<notin> set whitelist
        \<and> (\<forall>f\<in>set (form_fields frm). field_id f \<noteq> field_id E \<longrightarrow> c \<notin> set (label f))"
  proof -
    from that have a: "distinct (map field_id (form_fields frm))" and b: "E \<in> set (form_fields frm)"
      and f: "derivedFormula E = Some formula0" and c: "c \<in> set formula0" "c \<notin> set whitelist"
      and l: "\<forall>f\<in>set (form_fields frm). field_id f \<noteq> field_id E \<longrightarrow> c \<notin> set (label f)"
      by blast+
    have "derive_all P escapedLabel (form_fields frm) data (field_id E) = data (field_id E)"
      by (rule derive_all_foreign_char[OF a b f c]) (rule substituted_keeps_escapedLabel[OF f c(1) l])
    then show ?thesis by (simp add: updateDerivedFields_def)
  qed
  show "formData (FormPreview_updateDerivedFields P this) (field_id E') = formData this (field_id E')"
    if "distinct (map field_id (form_fields (form this))) \<and> E' \<in> set (form_fields (form this))
        \<and> derivedFormula E' = Some formula0' \<and> c' \<in> set formula0' \<and> c' \<notin> set whitelist
        \<and> (\<forall>f\<in>set (form_fields (form this)). field_id f \<noteq> field_id E' \<longrightarrow>
              c' \<notin> set (label f) \<and> set (label f) \<inter> set regexp_special = {})"
  proof -
    from that have a: "distinct (map field_id (form_fields (form this)))"
      and b: "E' \<in> set (form_fields (form this))"
      and f: "derivedFormula E' = Some formula0'" and c: "c' \<in> set formula0'" "c' \<notin> set whitelist"
      and l: "\<forall>f\<in>set (form_fields (form this)). field_id f \<noteq> field_id E' \<longrightarrow>
              c' \<notin> set (label f) \<and> set (label f) \<inter> set regexp_special = {}"
      by blast+
    have "derive_all P escapedLabel_FormPreview (form_fields (form this)) (formData this) (field_id E')
        = formData this (field_id E')"
      by (rule derive_all_foreign_char[OF a b f c])
        (rule substituted_keeps_escapedLabel_FormPreview[OF f c(1) l])
    then show ?thesis by (simp add: FormPreview_updateDerivedFields_def)
  qed
qed

text \<open>
  The formula \<open>A; alert(1)\<close> keeps its semicolon and is not evaluated; \<open>A +\<close> becomes
  \<open>3 +\<close>, whose evaluation throws: \<open>C\<close> keeps its value. The formula \<open>A + B\<close> is
  evaluated and \<open>C\<close> becomes 7.
\<close>

theorem unsafe_formula_keeps_value_witness:
  "CHR '';'' \<in> set ''A; alert(1)'' \<and> CHR '';'' \<notin> set whitelist
   \<and> ex_derived_field ''c'' ''C'' ''A; alert(1)'' \<in> set (form_fields (ex_form ''A; alert(1)''))
   \<and> app_formData (updateDerivedFields ex_platform (ex_data ''3'' ''4'') (ex_form ''A; alert(1)'')
        (ex_app ''A; alert(1)'')) ''c'' = Some (Str ''old'')
   \<and> formData (FormPreview_updateDerivedFields ex_platform (ex_preview ''A; alert(1)'')) ''c''
       = Some (Str ''old'')
   \<and> substituted ex_platform escapedLabel (form_fields (ex_form ''A +'')) (ex_data ''3'' ''4'')
       (ex_derived_field ''c'' ''C'' ''A +'') = Some ''3 +''
   \<and> not_evaluable ex_platform ''3 +''
   \<and> app_formData (updateDerivedFields ex_platform (ex_data ''3'' ''4'') (ex_form ''A +'')
        (ex_app ''A +'')) ''c'' = Some (Str ''old'')
   \<and> substituted ex_platform escapedLabel_FormPreview (form_fields (ex_form ''A +'')) (ex_data ''3'' ''4'')
       (ex_derived_field ''c'' ''C'' ''A +'') = Some ''3 +''
   \<and> formData (FormPreview_updateDerivedFields ex_platform (ex_preview ''A +'')) ''c'' = Some (Str ''old'')
   \<and> app_formData (updateDerivedFields ex_platform (ex_data ''3'' ''4'') (ex_form ''A + B'')
        (ex_app ''A + B'')) ''c'' = Some (Str ''7'')
   \<and> Function_calls ex_platform escapedLabel (form_fields (ex_form ''A; alert(1)''))
        (ex_data ''3'' ''4'') = []
   \<and> Function_calls ex_platform escapedLabel_FormPreview (form_fields (ex_form ''A +''))
        (ex_data ''3'' ''4'') = [''3 +'']
   \<and> Function_calls ex_platform escapedLabel (form_fields (ex_form ''A + B''))
        (ex_data ''3'' ''4'') = [''3 + 4'']"
proof -
  have calls: "Function_calls ex_platform escapedLabel (form_fields (ex_form ''A; alert(1)''))
        (ex_data ''3'' ''4'') = []"
    "Function_calls ex_platform escapedLabel_FormPreview (form_fields (ex_form ''A +''))
        (ex_data ''3'' ''4'') = [''3 +'']"
    "Function_calls ex_platform escapedLabel (form_fields (ex_form ''A + B''))
        (ex_data ''3'' ''4'') = [''3 + 4'']"
    by (simp_all add: Function_calls_def derive_all_traced_def deriveField_traced_def pass_defs
        ex_defs numericValue_3 numericValue_4 numericValue_old test_anchored_def Plus_def
        js_digit_def)
  note T = unsafe_formula_keeps_value [where P = ex_platform and esc = escapedLabel
      and fs = "form_fields (ex_form ''A +'')" and d = "ex_data ''3'' ''4''"
      and D = "ex_derived_field ''c'' ''C'' ''A +''" and formula = "''3 +''"
      and frm = "ex_form ''A +''"
      and pre = "[ex_number_field ''a'' ''A'', ex_number_field ''b'' ''B'']" and post = "[]"
      and data = "ex_data ''3'' ''4''" and st = "ex_app ''A +''"
      and this = "ex_preview ''A +''"
      and pre' = "[ex_number_field ''a'' ''A'', ex_number_field ''b'' ''B'']"
      and D' = "ex_derived_field ''c'' ''C'' ''A +''" and post' = "[]" and formula' = "''3 +''"]
  note U = unsafe_formula_keeps_value [where P = ex_platform
      and frm = "ex_form ''A; alert(1)''" and data = "ex_data ''3'' ''4''" and st = "ex_app ''A; alert(1)''"
      and this = "ex_preview ''A; alert(1)''"
      and E = "ex_derived_field ''c'' ''C'' ''A; alert(1)''" and formula0 = "''A; alert(1)''"
      and c = "CHR '';''"
      and E' = "ex_derived_field ''c'' ''C'' ''A; alert(1)''" and formula0' = "''A; alert(1)''"
      and c' = "CHR '';''"]
  have s1: "substituted ex_platform escapedLabel (form_fields (ex_form ''A +'')) (ex_data ''3'' ''4'')
       (ex_derived_field ''c'' ''C'' ''A +'') = Some ''3 +''"
    by (simp add: pass_defs ex_defs numericValue_3 numericValue_4 numericValue_old)
  have s2: "substituted ex_platform escapedLabel_FormPreview (form_fields (ex_form ''A +'')) (ex_data ''3'' ''4'')
       (ex_derived_field ''c'' ''C'' ''A +'') = Some ''3 +''"
    by (simp add: pass_defs ex_defs numericValue_3 numericValue_4 numericValue_old)
  have n: "not_evaluable ex_platform ''3 +''"
    by (simp add: not_evaluable_def ex_platform_def)
  have c: "app_formData (updateDerivedFields ex_platform (ex_data ''3'' ''4'') (ex_form ''A + B'')
        (ex_app ''A + B'')) ''c'' = Some (Str ''7'')"
    by (simp add: pass_defs ex_defs numericValue_3 numericValue_4 numericValue_old
        test_anchored_def Plus_def js_digit_def)
  have p: "form (ex_preview F) = ex_form F" "formData (ex_preview F) = ex_data ''3'' ''4''"
    "ex_data ''3'' ''4'' ''c'' = Some (Str ''old'')" "field_id (ex_derived_field ''c'' ''C'' F) = ''c''"
    "derivedFormula (ex_derived_field ''c'' ''C'' F) = Some F" for F
    by (simp_all add: ex_defs)
  have semi: "CHR '';'' \<in> set ''A; alert(1)''" "CHR '';'' \<notin> set whitelist"
    by (simp_all add: whitelist_def js_digit_def)
  have mem: "ex_derived_field ''c'' ''C'' ''A; alert(1)'' \<in> set (form_fields (ex_form ''A; alert(1)''))"
    by (simp add: ex_form_def)
  have labels: "\<forall>f\<in>set (form_fields (ex_form ''A; alert(1)'')).
      field_id f \<noteq> field_id (ex_derived_field ''c'' ''C'' ''A; alert(1)'') \<longrightarrow>
        CHR '';'' \<notin> set (label f) \<and> set (label f) \<inter> set regexp_special = {}"
    by (simp add: ex_defs regexp_special_def backslash_def)
  from T[THEN conjunct2, THEN conjunct1] s1 n ex_fields_split ex_before_C p
  have 1: "app_formData (updateDerivedFields ex_platform (ex_data ''3'' ''4'') (ex_form ''A +'')
        (ex_app ''A +'')) ''c'' = Some (Str ''old'')"
    by simp
  from T[THEN conjunct2, THEN conjunct2, THEN conjunct1] s2 n ex_fields_split ex_before_C p
  have 2: "formData (FormPreview_updateDerivedFields ex_platform (ex_preview ''A +'')) ''c'' = Some (Str ''old'')"
    by simp
  from U[THEN conjunct2, THEN conjunct2, THEN conjunct2, THEN conjunct1] semi mem labels
    ex_fields_split(2) p
  have 3: "app_formData (updateDerivedFields ex_platform (ex_data ''3'' ''4'') (ex_form ''A; alert(1)'')
        (ex_app ''A; alert(1)'')) ''c'' = Some (Str ''old'')"
    by simp
  from U[THEN conjunct2, THEN conjunct2, THEN conjunct2, THEN conjunct2, THEN conjunct1] semi mem labels
    ex_fields_split(2) p
  have 4: "formData (FormPreview_updateDerivedFields ex_platform (ex_preview ''A; alert(1)'')) ''c''
       = Some (Str ''old'')"
    by simp
  from semi mem 1 2 3 4 s1 s2 n c calls show ?thesis by blast
qed

text \<open>
  C4: the substitution step for a derived field \<open>D\<close> runs over the fields whose id differs
  from the id of \<open>D\<close> and over no other: its result does not depend on the label of \<open>D\<close>
  nor on the stored value of \<open>D\<close>, and in a form that has no other field the formula stays
  as it is, whatever it contains.
\<close>

theorem no_self_substitution:
  "substitute P esc D d fs formula
     = substitute P esc D d (filter (\<lambda>f. field_id f \<noteq> field_id D) fs) formula
   \<and> substitute P esc D d (map (\<lambda>f. if field_id f = field_id D then f\<lparr>label := l\<rparr> else f) fs) formula
     = substitute P esc D d fs formula
   \<and> substitute P esc D (d(field_id D := v)) fs formula = substitute P esc D d fs formula
   \<and> ((\<forall>f\<in>set fs. field_id f = field_id D) \<longrightarrow> substitute P esc D d fs formula = Some formula)"
  using substitute_filter[of P esc D d fs formula] substitute_own_label[of P esc D d l fs formula]
    substitute_own_value[of P esc D d v fs formula] substitute_self_only[of fs D P esc d formula]
  by blast

text \<open>
  The label of \<open>C\<close> occurs in its own formula \<open>C + A\<close>: only \<open>A\<close> is replaced.
\<close>

theorem no_self_substitution_witness:
  "substitute ex_platform escapedLabel (ex_derived_field ''c'' ''C'' ''C + A'') (ex_data ''3'' ''4'')
      [ex_derived_field ''c'' ''C'' ''C + A''] ''C + A'' = Some ''C + A''
   \<and> substitute ex_platform escapedLabel (ex_derived_field ''c'' ''C'' ''C + A'') (ex_data ''3'' ''4'')
      (form_fields (ex_form ''C + A'')) ''C + A'' = Some ''C + 3''
   \<and> substitute ex_platform escapedLabel_FormPreview (ex_derived_field ''c'' ''C'' ''C + A'') (ex_data ''3'' ''4'')
      (form_fields (ex_form ''C + A'')) ''C + A'' = Some ''C + 3''
   \<and> app_formData (updateDerivedFields ex_platform (ex_data ''3'' ''4'') (ex_form ''C + A'')
        (ex_app ''C + A'')) ''c'' = Some (Str ''old'')"
proof -
  have 1: "\<forall>f\<in>set [ex_derived_field ''c'' ''C'' ''C + A'']. field_id f = field_id (ex_derived_field ''c'' ''C'' ''C + A'')"
    by simp
  have 2: "substitute ex_platform escapedLabel (ex_derived_field ''c'' ''C'' ''C + A'') (ex_data ''3'' ''4'')
      (form_fields (ex_form ''C + A'')) ''C + A'' = Some ''C + 3''"
    by (simp add: pass_defs ex_defs numericValue_3 numericValue_4 numericValue_old)
  have 3: "substitute ex_platform escapedLabel_FormPreview (ex_derived_field ''c'' ''C'' ''C + A'') (ex_data ''3'' ''4'')
      (form_fields (ex_form ''C + A'')) ''C + A'' = Some ''C + 3''"
    by (simp add: pass_defs ex_defs numericValue_3 numericValue_4 numericValue_old)
  have 4: "app_formData (updateDerivedFields ex_platform (ex_data ''3'' ''4'') (ex_form ''C + A'')
        (ex_app ''C + A'')) ''c'' = Some (Str ''old'')"
    by (simp add: pass_defs ex_defs numericValue_3 numericValue_4 numericValue_old
        test_anchored_def Plus_def js_digit_def)
  from no_self_substitution [of ex_platform escapedLabel "ex_derived_field ''c'' ''C'' ''C + A''"
      "ex_data ''3'' ''4''" "[ex_derived_field ''c'' ''C'' ''C + A'']" "''C + A''" "''X''" None] 1
  have "substitute ex_platform escapedLabel (ex_derived_field ''c'' ''C'' ''C + A'') (ex_data ''3'' ''4'')
      [ex_derived_field ''c'' ''C'' ''C + A''] ''C + A'' = Some ''C + A''"
    by blast
  with 2 3 4 show ?thesis by simp
qed

text \<open>
  C2 does not hold of the code. The value substituted is 0 only where \<^verbatim>\<open>Number\<close> yields
  NaN (as for \<open>abc\<close>); for a field that is absent, holds the empty string or holds the
  empty array, \<^verbatim>\<open>Number\<close> yields 0, the guard lets the value through to \<^verbatim>\<open>parseFloat\<close>,
  and the text substituted is \<open>NaN\<close>; a one-element array of a numeral substitutes that
  number. With \<open>A\<close> empty the formula \<open>A + 1\<close> becomes \<open>NaN + 1\<close>, and \<open>C\<close> is not
  recomputed.
\<close>

theorem empty_value_substitutes_NaN:
  "toString P (numericValue (fieldValue None)) = ''NaN''
   \<and> toString P (numericValue (fieldValue (Some (Str [])))) = ''NaN''
   \<and> toString P (numericValue (fieldValue (Some (Arr [])))) = ''NaN''
   \<and> toString P (numericValue (fieldValue (Some (Arr [''5''])))) = number_toString P ''5''
   \<and> toString P (numericValue (fieldValue (Some (Str ''abc'')))) = ''0''
   \<and> toString P (numericValue (fieldValue (Some (Arr [''1'', ''2''])))) = ''0''
   \<and> substituted P escapedLabel (form_fields (ex_form ''A + 1'')) (ex_data [] ''4'')
       (ex_derived_field ''c'' ''C'' ''A + 1'') = Some ''NaN + 1''
   \<and> substituted P escapedLabel_FormPreview (form_fields (ex_form ''A + 1'')) (ex_data [] ''4'')
       (ex_derived_field ''c'' ''C'' ''A + 1'') = Some ''NaN + 1''
   \<and> app_formData (updateDerivedFields P (ex_data [] ''4'') (ex_form ''A + 1'') st) ''c''
       = Some (Str ''old'')"
proof -
  have v: "numericValue (Str ''abc'') = Zero_literal" "numericValue (Arr []) = NaN"
    "numericValue (Arr [''5'']) = Parsed ''5''" "numericValue (Arr [''1'', ''2'']) = Zero_literal"
    by (simp_all add: num_defs)
  have s: "substituted P escapedLabel (form_fields (ex_form ''A + 1'')) (ex_data [] ''4'')
       (ex_derived_field ''c'' ''C'' ''A + 1'') = Some ''NaN + 1''"
    "substituted P escapedLabel_FormPreview (form_fields (ex_form ''A + 1'')) (ex_data [] ''4'')
       (ex_derived_field ''c'' ''C'' ''A + 1'') = Some ''NaN + 1''"
    by (simp_all add: pass_defs ex_defs numericValue_empty numericValue_4 numericValue_old)
  have "not_evaluable P ''NaN + 1''"
    by (simp add: not_evaluable_def whitelist_def js_digit_def)
  moreover have "substituted P escapedLabel (form_fields (ex_form ''A + 1''))
       (foldl (deriveField P escapedLabel (form_fields (ex_form ''A + 1''))) (ex_data [] ''4'')
          [ex_number_field ''a'' ''A'', ex_number_field ''b'' ''B''])
       (ex_derived_field ''c'' ''C'' ''A + 1'') = Some ''NaN + 1''"
    using s(1) by (simp only: ex_before_C)
  ultimately have "derive_all P escapedLabel (form_fields (ex_form ''A + 1'')) (ex_data [] ''4'')
        (field_id (ex_derived_field ''c'' ''C'' ''A + 1''))
      = (ex_data [] ''4'') (field_id (ex_derived_field ''c'' ''C'' ''A + 1''))"
    using derive_all_rejected[OF ex_fields_split(2) ex_fields_split(1)] by blast
  then have d: "derive_all P escapedLabel (form_fields (ex_form ''A + 1'')) (ex_data [] ''4'') ''c'' = Some (Str ''old'')"
    by (simp add: ex_data_def ex_derived_field_def)
  from v s d show ?thesis by (simp add: numericValue_empty updateDerivedFields_def)
qed

section \<open>Form builder: properties\<close>

lemma find_change_first:
  "(\<And>x. p (g x) = p x) \<Longrightarrow> find p (change_first p g xs) = map_option g (find p xs)"
  by (induction xs) auto

lemma set_change_first:
  "y \<in> set (change_first p g xs) \<Longrightarrow> y \<in> set xs \<or> (\<exists>x. find p xs = Some x \<and> y = g x)"
  by (induction xs) (auto split: if_splits)

lemma map_id_change_first:
  "(\<And>x. h (g x) = h x) \<Longrightarrow> map h (change_first p g xs) = map h xs"
  by (induction xs) auto

lemma find_Some_in_set: "find p xs = Some x \<Longrightarrow> x \<in> set xs \<and> p x"
  by (auto simp: find_Some_iff)

lemma list_ex_rule_type: "list_ex (\<lambda>v. rule_type v = t) vs \<longleftrightarrow> t \<in> rule_type ` set vs"
  by (auto simp: list_ex_iff)

lemma addValidation_rejected:
  "find (\<lambda>f. field_id f = fieldId) (form_fields frm) = Some field \<Longrightarrow>
   t \<in> rule_type ` set (validations field) \<Longrightarrow>
   addValidation fieldId t frm = (frm, [Alert ''This validation is already added!''])"
  by (simp add: addValidation_def list_ex_rule_type)

lemma one_rule_per_kind_append:
  "one_rule_per_kind f \<Longrightarrow> t \<notin> rule_type ` set (validations f) \<Longrightarrow>
   one_rule_per_kind (f\<lparr>validations := validations f @ [new_validation t]\<rparr>)"
  by (simp add: one_rule_per_kind_def new_validation_def)

lemma addValidation_invariant:
  assumes "\<forall>f\<in>set (form_fields frm). one_rule_per_kind f"
  shows "\<forall>f\<in>set (form_fields (fst (addValidation fieldId t frm))). one_rule_per_kind f"
proof (cases "find (\<lambda>f. field_id f = fieldId) (form_fields frm)")
  case None
  then show ?thesis using assms by (simp add: addValidation_def)
next
  case (Some field)
  show ?thesis
  proof (cases "t \<in> rule_type ` set (validations field)")
    case True
    then show ?thesis using assms Some by (simp add: addValidation_rejected)
  next
    case False
    have "one_rule_per_kind y"
      if "y \<in> set (change_first (\<lambda>f. field_id f = fieldId)
              (\<lambda>f. f\<lparr>validations := validations f @ [new_validation t]\<rparr>) (form_fields frm))" for y
    proof -
      from set_change_first[OF that] Some
      consider "y \<in> set (form_fields frm)"
        | "y = field\<lparr>validations := validations field @ [new_validation t]\<rparr>" by auto
      then show ?thesis
      proof cases
        case 1
        then show ?thesis using assms by simp
      next
        case 2
        from Some have "field \<in> set (form_fields frm)" by (simp add: find_Some_in_set)
        with assms have "one_rule_per_kind field" by simp
        with False 2 show ?thesis by (simp add: one_rule_per_kind_append)
      qed
    qed
    then show ?thesis using Some False by (simp add: addValidation_def list_ex_rule_type)
  qed
qed

lemma addValidation_ids:
  "map field_id (form_fields (fst (addValidation fieldId t frm))) = map field_id (form_fields frm)"
  by (simp add: addValidation_def map_id_change_first split: option.splits)

lemma addValidations_invariant:
  "\<forall>f\<in>set (form_fields frm). one_rule_per_kind f \<Longrightarrow>
   \<forall>f\<in>set (form_fields (addValidations calls frm)). one_rule_per_kind f"
proof (induction calls arbitrary: frm)
  case Nil
  then show ?case by (simp add: addValidations_def)
next
  case (Cons c calls)
  obtain i t where c: "c = (i, t)" by (cases c)
  from Cons.prems have "\<forall>f\<in>set (form_fields (fst (addValidation i t frm))). one_rule_per_kind f"
    by (rule addValidation_invariant)
  from Cons.IH[OF this] show ?case by (simp add: addValidations_def c)
qed

lemma addValidations_ids:
  "map field_id (form_fields (addValidations calls frm)) = map field_id (form_fields frm)"
proof (induction calls arbitrary: frm)
  case Nil
  show ?case by (simp add: addValidations_def)
next
  case (Cons c calls)
  obtain i t where c: "c = (i, t)" by (cases c)
  have "addValidations (c # calls) frm = addValidations calls (fst (addValidation i t frm))"
    by (simp add: addValidations_def c)
  then show ?case using Cons.IH[of "fst (addValidation i t frm)"] by (simp add: addValidation_ids)
qed

lemma count_distinct_kind:
  "distinct (map rule_type vs) \<Longrightarrow> t \<in> rule_type ` set vs \<Longrightarrow>
   length (filter (\<lambda>v. rule_type v = t) vs) = 1"
proof (induction vs)
  case Nil
  then show ?case by simp
next
  case (Cons v vs)
  show ?case
  proof (cases "rule_type v = t")
    case True
    with Cons.prems have "t \<notin> rule_type ` set vs" by auto
    then have "filter (\<lambda>v. rule_type v = t) vs = []" by (auto simp: filter_empty_conv)
    with True show ?thesis by simp
  next
    case False
    with Cons show ?thesis by auto
  qed
qed

lemma count_absent_kind:
  "t \<notin> rule_type ` set vs \<Longrightarrow> length (filter (\<lambda>v. rule_type v = t) vs) = 0"
  by (auto simp: filter_empty_conv)

lemma addValidation_once:
  assumes inv: "\<forall>f\<in>set (form_fields frm). one_rule_per_kind f"
    and ex: "fieldId \<in> field_id ` set (form_fields frm)"
  shows "rules_of_kind t fieldId (fst (addValidation fieldId t frm)) = 1"
proof -
  from ex obtain field where f: "find (\<lambda>f. field_id f = fieldId) (form_fields frm) = Some field"
    by (cases "find (\<lambda>f. field_id f = fieldId) (form_fields frm)") (auto simp: find_None_iff)
  then have "field \<in> set (form_fields frm)" by (simp add: find_Some_in_set)
  with inv have d: "distinct (map rule_type (validations field))" by (simp add: one_rule_per_kind_def)
  show ?thesis
  proof (cases "t \<in> rule_type ` set (validations field)")
    case True
    with f d show ?thesis
      by (simp add: addValidation_rejected rules_of_kind_def count_distinct_kind)
  next
    case False
    then have "length (filter (\<lambda>v. rule_type v = t) (validations field)) = 0"
      by (rule count_absent_kind)
    with f False show ?thesis
      by (simp add: addValidation_def list_ex_rule_type rules_of_kind_def find_change_first
          new_validation_def)
  qed
qed

lemma addValidation_again:
  assumes ex: "fieldId \<in> field_id ` set (form_fields frm)"
  shows "addValidation fieldId t (fst (addValidation fieldId t frm))
           = (fst (addValidation fieldId t frm), [Alert ''This validation is already added!''])"
proof -
  from ex obtain field where f: "find (\<lambda>f. field_id f = fieldId) (form_fields frm) = Some field"
    by (cases "find (\<lambda>f. field_id f = fieldId) (form_fields frm)") (auto simp: find_None_iff)
  show ?thesis
  proof (cases "t \<in> rule_type ` set (validations field)")
    case True
    with f show ?thesis by (simp add: addValidation_rejected)
  next
    case False
    with f have 1: "fst (addValidation fieldId t frm) = frm\<lparr>form_fields :=
                      change_first (\<lambda>f. field_id f = fieldId)
                        (\<lambda>f. f\<lparr>validations := validations f @ [new_validation t]\<rparr>)
                        (form_fields frm)\<rparr>"
      by (simp add: addValidation_def list_ex_rule_type)
    have 2: "find (\<lambda>f. field_id f = fieldId) (form_fields (fst (addValidation fieldId t frm)))
        = Some (field\<lparr>validations := validations field @ [new_validation t]\<rparr>)"
      using f by (simp add: 1 find_change_first)
    have 3: "t \<in> rule_type ` set (validations (field\<lparr>validations := validations field @ [new_validation t]\<rparr>))"
      by (simp add: new_validation_def)
    from addValidation_rejected[OF 2 3] show ?thesis .
  qed
qed

lemma rule_type_new_validation: "rule_type (new_validation t) = t"
  by (simp add: new_validation_def)

lemma FieldEditor_rejected:
  "t \<in> rule_type ` set (validations field) \<Longrightarrow>
   FieldEditor_addValidation field t st = (st, [Alert ''This validation is already added!''])"
  by (simp add: FieldEditor_addValidation_def list_ex_rule_type)

lemma FieldEditor_invariant:
  assumes "\<forall>f\<in>set (form_fields (currentForm st)). one_rule_per_kind f"
    and "field \<in> set (form_fields (currentForm st))"
  shows "\<forall>f\<in>set (form_fields (currentForm (fst (FieldEditor_addValidation field t st)))). one_rule_per_kind f"
proof (cases "t \<in> rule_type ` set (validations field)")
  case True
  then show ?thesis using assms(1) by (simp add: FieldEditor_rejected)
next
  case False
  from assms have "one_rule_per_kind field" by simp
  with False have "distinct (map rule_type (validations field @ [new_validation t]))"
    by (simp add: one_rule_per_kind_def new_validation_def)
  with False assms(1) show ?thesis
    by (auto simp: FieldEditor_addValidation_def list_ex_rule_type updateField_validations_def
        one_rule_per_kind_def)
qed

lemma find_map_update:
  "find (\<lambda>f. field_id f = i) fs = Some x \<Longrightarrow>
   find (\<lambda>f. field_id f = i) (map (\<lambda>f. if field_id f = i then f\<lparr>validations := v\<rparr> else f) fs)
     = Some (x\<lparr>validations := v\<rparr>)"
  by (induction fs) (auto split: if_splits)

lemma FieldEditor_twice:
  assumes f: "find (\<lambda>f. field_id f = field_id field) (form_fields (currentForm st)) = Some field"
    and d: "one_rule_per_kind field"
  shows "\<exists>field1. find (\<lambda>f. field_id f = field_id field)
             (form_fields (currentForm (fst (FieldEditor_addValidation field t st)))) = Some field1
          \<and> FieldEditor_addValidation field1 t (fst (FieldEditor_addValidation field t st))
              = (fst (FieldEditor_addValidation field t st), [Alert ''This validation is already added!''])
          \<and> rules_of_kind t (field_id field) (currentForm (fst (FieldEditor_addValidation field t st))) = 1"
proof (cases "t \<in> rule_type ` set (validations field)")
  case True
  with d have "length (filter (\<lambda>v. rule_type v = t) (validations field)) = 1"
    by (simp add: one_rule_per_kind_def count_distinct_kind)
  with True f show ?thesis
    by (simp add: FieldEditor_rejected rules_of_kind_def)
next
  case False
  let ?v = "validations field @ [new_validation t]"
  have st1: "fst (FieldEditor_addValidation field t st) = updateField_validations (field_id field) ?v st"
    using False by (simp add: FieldEditor_addValidation_def list_ex_rule_type)
  have find1: "find (\<lambda>f. field_id f = field_id field)
             (form_fields (currentForm (updateField_validations (field_id field) ?v st)))
      = Some (field\<lparr>validations := ?v\<rparr>)"
    using find_map_update[OF f] by (simp add: updateField_validations_def)
  have "t \<in> rule_type ` set (validations (field\<lparr>validations := ?v\<rparr>))"
    by (simp add: new_validation_def)
  then have rej: "FieldEditor_addValidation (field\<lparr>validations := ?v\<rparr>) t (updateField_validations (field_id field) ?v st)
      = (updateField_validations (field_id field) ?v st, [Alert ''This validation is already added!''])"
    by (rule FieldEditor_rejected)
  have "length (filter (\<lambda>v. rule_type v = t) (validations field)) = 0"
    using False by (rule count_absent_kind)
  then have cnt: "rules_of_kind t (field_id field) (currentForm (updateField_validations (field_id field) ?v st)) = 1"
    by (simp add: rules_of_kind_def find1 rule_type_new_validation)
  from find1 rej cnt show ?thesis unfolding st1 by blast
qed

lemma addField_invariant:
  "\<forall>f\<in>set (form_fields frm). one_rule_per_kind f \<Longrightarrow>
   \<forall>f\<in>set (form_fields (fst (addField newId frm))). one_rule_per_kind f"
  by (auto simp: addField_def one_rule_per_kind_def)

text \<open>
  C7: adding a kind of rule that the field already has is rejected with a notice and leaves
  the form as it is. The empty form has at most one rule of each kind on every field, and
  adding a field and any series of \<^verbatim>\<open>addValidation\<close> calls keep it so; after such a
  series, adding a kind twice to a field leaves exactly one rule of that kind. For the
  class \<^verbatim>\<open>FormBuilder\<close> and for the component \<^verbatim>\<open>FieldEditor\<close>.
\<close>

theorem duplicate_validation_rejected:
  "(find (\<lambda>f. field_id f = fieldId) (form_fields frm) = Some field
      \<and> t \<in> rule_type ` set (validations field) \<longrightarrow>
      addValidation fieldId t frm = (frm, [Alert ''This validation is already added!'']))
   \<and> (\<forall>f\<in>set (form_fields createEmptyForm). one_rule_per_kind f)
   \<and> ((\<forall>f\<in>set (form_fields frm). one_rule_per_kind f) \<longrightarrow>
        (\<forall>f\<in>set (form_fields (fst (addField newId frm))). one_rule_per_kind f)
      \<and> (\<forall>f\<in>set (form_fields (addValidations calls frm)). one_rule_per_kind f)
      \<and> (fieldId \<in> field_id ` set (form_fields frm) \<longrightarrow>
           rules_of_kind t fieldId
             (fst (addValidation fieldId t (fst (addValidation fieldId t (addValidations calls frm))))) = 1))
   \<and> (t \<in> rule_type ` set (validations field') \<longrightarrow>
        FieldEditor_addValidation field' t st = (st, [Alert ''This validation is already added!'']))
   \<and> ((\<forall>f\<in>set (form_fields (currentForm st)). one_rule_per_kind f)
        \<and> field' \<in> set (form_fields (currentForm st)) \<longrightarrow>
        (\<forall>f\<in>set (form_fields (currentForm (fst (FieldEditor_addValidation field' t st)))).
            one_rule_per_kind f))
   \<and> (find (\<lambda>f. field_id f = field_id field') (form_fields (currentForm st)) = Some field'
        \<and> one_rule_per_kind field' \<longrightarrow>
        (\<exists>field1. find (\<lambda>f. field_id f = field_id field')
             (form_fields (currentForm (fst (FieldEditor_addValidation field' t st)))) = Some field1
          \<and> FieldEditor_addValidation field1 t (fst (FieldEditor_addValidation field' t st))
              = (fst (FieldEditor_addValidation field' t st), [Alert ''This validation is already added!''])
          \<and> rules_of_kind t (field_id field') (currentForm (fst (FieldEditor_addValidation field' t st))) = 1))"
proof (intro conjI impI)
  show "addValidation fieldId t frm = (frm, [Alert ''This validation is already added!''])"
    if "find (\<lambda>f. field_id f = fieldId) (form_fields frm) = Some field
      \<and> t \<in> rule_type ` set (validations field)"
    using that addValidation_rejected by blast
  show "\<forall>f\<in>set (form_fields createEmptyForm). one_rule_per_kind f"
    by (simp add: createEmptyForm_def)
  show "\<forall>f\<in>set (form_fields (fst (addField newId frm))). one_rule_per_kind f"
    if "\<forall>f\<in>set (form_fields frm). one_rule_per_kind f"
    using that by (rule addField_invariant)
  show "\<forall>f\<in>set (form_fields (addValidations calls frm)). one_rule_per_kind f"
    if "\<forall>f\<in>set (form_fields frm). one_rule_per_kind f"
    using that by (rule addValidations_invariant)
  show "rules_of_kind t fieldId
             (fst (addValidation fieldId t (fst (addValidation fieldId t (addValidations calls frm))))) = 1"
    if inv: "\<forall>f\<in>set (form_fields frm). one_rule_per_kind f"
      and ex: "fieldId \<in> field_id ` set (form_fields frm)"
  proof -
    let ?frm = "addValidations calls frm"
    have inv': "\<forall>f\<in>set (form_fields ?frm). one_rule_per_kind f"
      using inv by (rule addValidations_invariant)
    have "set (map field_id (form_fields ?frm)) = set (map field_id (form_fields frm))"
      by (simp only: addValidations_ids)
    with ex have ex': "fieldId \<in> field_id ` set (form_fields ?frm)" by simp
    from addValidation_once[OF inv' ex'] addValidation_again[OF ex'] show ?thesis by simp
  qed
  show "FieldEditor_addValidation field' t st = (st, [Alert ''This validation is already added!''])"
    if "t \<in> rule_type ` set (validations field')"
    using that by (rule FieldEditor_rejected)
  show "\<forall>f\<in>set (form_fields (currentForm (fst (FieldEditor_addValidation field' t st)))). one_rule_per_kind f"
    if "(\<forall>f\<in>set (form_fields (currentForm st)). one_rule_per_kind f)
        \<and> field' \<in> set (form_fields (currentForm st))"
    using that FieldEditor_invariant by blast
  show "\<exists>field1. find (\<lambda>f. field_id f = field_id field')
             (form_fields (currentForm (fst (FieldEditor_addValidation field' t st)))) = Some field1
          \<and> FieldEditor_addValidation field1 t (fst (FieldEditor_addValidation field' t st))
              = (fst (FieldEditor_addValidation field' t st), [Alert ''This validation is already added!''])
          \<and> rules_of_kind t (field_id field') (currentForm (fst (FieldEditor_addValidation field' t st))) = 1"
    if "find (\<lambda>f. field_id f = field_id field') (form_fields (currentForm st)) = Some field'
        \<and> one_rule_per_kind field'"
    using that FieldEditor_twice by blast
qed

lemmas builder_defs = ex_builder_form_def ex_builder_app_def ex_new_field_def addField_def
  createEmptyForm_def addValidations_def addValidation_def new_validation_def
  DEFAULT_VALIDATION_MESSAGES_def rules_of_kind_def one_rule_per_kind_def
  FieldEditor_addValidation_def updateField_validations_def

text \<open>
  A new field gets \<open>required\<close>, \<open>minLength\<close> and \<open>required\<close> again: two rules. Adding
  \<open>minLength\<close> once more is rejected, and adding it twice leaves one.
\<close>

theorem duplicate_validation_rejected_witness:
  "form_fields (addValidations [(''f1'', required), (''f1'', minLength), (''f1'', required)] ex_builder_form)
     = [ex_new_field [new_validation required, new_validation minLength]]
   \<and> addValidation ''f1'' minLength
        (addValidations [(''f1'', required), (''f1'', minLength), (''f1'', required)] ex_builder_form)
     = (addValidations [(''f1'', required), (''f1'', minLength), (''f1'', required)] ex_builder_form,
        [Alert ''This validation is already added!''])
   \<and> rules_of_kind minLength ''f1''
        (fst (addValidation ''f1'' minLength (fst (addValidation ''f1'' minLength
           (addValidations [(''f1'', required)] ex_builder_form))))) = 1
   \<and> form_fields (currentForm (fst (FieldEditor_addValidation (ex_new_field []) minLength ex_builder_app)))
     = [ex_new_field [new_validation minLength]]
   \<and> FieldEditor_addValidation (ex_new_field [new_validation minLength]) minLength
        (fst (FieldEditor_addValidation (ex_new_field []) minLength ex_builder_app))
     = (fst (FieldEditor_addValidation (ex_new_field []) minLength ex_builder_app),
        [Alert ''This validation is already added!''])"
proof -
  have inv: "\<forall>f\<in>set (form_fields ex_builder_form). one_rule_per_kind f"
    and ex: "''f1'' \<in> field_id ` set (form_fields ex_builder_form)"
    by (simp_all add: builder_defs)
  have fs: "form_fields (addValidations [(''f1'', required), (''f1'', minLength), (''f1'', required)] ex_builder_form)
     = [ex_new_field [new_validation required, new_validation minLength]]"
    by (simp add: builder_defs)
  have f: "find (\<lambda>f. field_id f = ''f1'')
      (form_fields (addValidations [(''f1'', required), (''f1'', minLength), (''f1'', required)] ex_builder_form))
     = Some (ex_new_field [new_validation required, new_validation minLength])"
    "minLength \<in> rule_type ` set (validations (ex_new_field [new_validation required, new_validation minLength]))"
    by (simp_all add: fs) (simp_all add: ex_new_field_def new_validation_def)
  have e: "form_fields (currentForm (fst (FieldEditor_addValidation (ex_new_field []) minLength ex_builder_app)))
     = [ex_new_field [new_validation minLength]]"
    by (simp add: builder_defs)
  have g: "find (\<lambda>f. field_id f = field_id (ex_new_field [])) (form_fields (currentForm ex_builder_app))
      = Some (ex_new_field [])" "one_rule_per_kind (ex_new_field [])"
    by (simp_all add: builder_defs)
  have i: "field_id (ex_new_field []) = ''f1''" by (simp add: ex_new_field_def)
  from duplicate_validation_rejected [where fieldId = "''f1''" and t = minLength
      and frm = "addValidations [(''f1'', required), (''f1'', minLength), (''f1'', required)] ex_builder_form"
      and field = "ex_new_field [new_validation required, new_validation minLength]",
      THEN conjunct1] f
  have 1: "addValidation ''f1'' minLength
        (addValidations [(''f1'', required), (''f1'', minLength), (''f1'', required)] ex_builder_form)
     = (addValidations [(''f1'', required), (''f1'', minLength), (''f1'', required)] ex_builder_form,
        [Alert ''This validation is already added!''])"
    by blast
  from duplicate_validation_rejected [where fieldId = "''f1''" and t = minLength
      and frm = ex_builder_form and calls = "[(''f1'', required)]"
      and field' = "ex_new_field []" and st = ex_builder_app,
      THEN conjunct2, THEN conjunct2, THEN conjunct1] inv ex
  have 2: "rules_of_kind minLength ''f1''
        (fst (addValidation ''f1'' minLength (fst (addValidation ''f1'' minLength
           (addValidations [(''f1'', required)] ex_builder_form))))) = 1"
    by blast
  from duplicate_validation_rejected [where t = minLength and field' = "ex_new_field []"
      and st = ex_builder_app,
      THEN conjunct2, THEN conjunct2, THEN conjunct2, THEN conjunct2, THEN conjunct2] g
  obtain field1 where "find (\<lambda>f. field_id f = field_id (ex_new_field []))
             (form_fields (currentForm (fst (FieldEditor_addValidation (ex_new_field []) minLength ex_builder_app))))
        = Some field1"
    and r: "FieldEditor_addValidation field1 minLength (fst (FieldEditor_addValidation (ex_new_field []) minLength ex_builder_app))
              = (fst (FieldEditor_addValidation (ex_new_field []) minLength ex_builder_app),
                 [Alert ''This validation is already added!''])"
    by blast
  then have "field1 = ex_new_field [new_validation minLength]"
    by (simp add: e i) (simp add: ex_new_field_def)
  with r have 3: "FieldEditor_addValidation (ex_new_field [new_validation minLength]) minLength
        (fst (FieldEditor_addValidation (ex_new_field []) minLength ex_builder_app))
     = (fst (FieldEditor_addValidation (ex_new_field []) minLength ex_builder_app),
        [Alert ''This validation is already added!''])"
    by simp
  from fs 1 2 e 3 show ?thesis by blast
qed

section \<open>Submitting the form: properties\<close>

lemma hasErrors_update: "e \<noteq> [] \<Longrightarrow> hasErrors (AList.update k e errors)"
  by (induction errors) (auto simp: hasErrors_def)

lemma hasErrors_foldl:
  "hasErrors (foldl (\<lambda>errors field.
              let error = validateField field (data (field_id field))
              in if error \<noteq> [] then AList.update (field_id field) error errors else errors) acc fs)
    \<longleftrightarrow> hasErrors acc \<or> (\<exists>f\<in>set fs. validateField f (data (field_id f)) \<noteq> [])"
proof (induction fs arbitrary: acc)
  case Nil
  show ?case by simp
next
  case (Cons f fs)
  show ?case
  proof (cases "validateField f (data (field_id f)) = []")
    case True
    then show ?thesis by (simp add: Cons.IH)
  next
    case False
    then show ?thesis by (simp add: Cons.IH hasErrors_update)
  qed
qed

lemma hasErrors_validateForm:
  "hasErrors (validateForm fs data) \<longleftrightarrow> (\<exists>f\<in>set fs. validateField f (data (field_id f)) \<noteq> [])"
  unfolding validateForm_def by (simp add: hasErrors_foldl) (simp add: hasErrors_def)

lemma fix_errors_not_success: "fix_errors_text \<noteq> success_text P d"
  by (simp add: fix_errors_text_def success_text_def)

text \<open>
  C8: submitting runs \<^const>\<open>validateForm\<close> over all fields of the form and stores the
  result as the error map. When some field has a non-empty error the user is told to fix the
  errors, and no success notice is issued; when every field validates, the success notice
  carries the current value map. For the component and for the class.
\<close>

theorem submit_gated_by_validation:
  "fst (handleFormSubmit P st)
     = st\<lparr>app_formErrors := validateForm (form_fields (currentForm st)) (app_formData st)\<rparr>
   \<and> snd (handleFormSubmit P st)
     = (if \<exists>f\<in>set (form_fields (currentForm st)). validateField f (app_formData st (field_id f)) \<noteq> []
        then [Alert fix_errors_text] else [Alert (success_text P (app_formData st))])
   \<and> formErrors (fst (FormPreview_handleFormSubmit P this))
     = validateForm (form_fields (form this)) (formData this)
   \<and> snd (FormPreview_handleFormSubmit P this)
     = (if \<exists>f\<in>set (form_fields (form this)). validateField f (formData this (field_id f)) \<noteq> []
        then [Alert fix_errors_text, RenderPreview] else [Alert (success_text P (formData this))])
   \<and> ((\<exists>f\<in>set (form_fields (currentForm st)). validateField f (app_formData st (field_id f)) \<noteq> []) \<longrightarrow>
        Alert (success_text P d) \<notin> set (snd (handleFormSubmit P st)))
   \<and> ((\<exists>f\<in>set (form_fields (form this)). validateField f (formData this (field_id f)) \<noteq> []) \<longrightarrow>
        Alert (success_text P d) \<notin> set (snd (FormPreview_handleFormSubmit P this)))
   \<and> ((\<forall>f\<in>set (form_fields (form this)). validateField f (formData this (field_id f)) = []) \<longrightarrow>
        formData (fst (FormPreview_handleFormSubmit P this)) = formData this)"
proof -
  have 1: "fst (handleFormSubmit P st)
     = st\<lparr>app_formErrors := validateForm (form_fields (currentForm st)) (app_formData st)\<rparr>"
    by (simp add: handleFormSubmit_def Let_def)
  have 2: "snd (handleFormSubmit P st)
     = (if \<exists>f\<in>set (form_fields (currentForm st)). validateField f (app_formData st (field_id f)) \<noteq> []
        then [Alert fix_errors_text] else [Alert (success_text P (app_formData st))])"
    by (simp add: handleFormSubmit_def Let_def hasErrors_validateForm)
  have 3: "formErrors (fst (FormPreview_handleFormSubmit P this))
     = validateForm (form_fields (form this)) (formData this)"
    by (simp add: FormPreview_handleFormSubmit_def Let_def renderPreview_def
        FormPreview_updateDerivedFields_def)
  have 4: "snd (FormPreview_handleFormSubmit P this)
     = (if \<exists>f\<in>set (form_fields (form this)). validateField f (formData this (field_id f)) \<noteq> []
        then [Alert fix_errors_text, RenderPreview] else [Alert (success_text P (formData this))])"
    by (simp add: FormPreview_handleFormSubmit_def Let_def hasErrors_validateForm)
  have 5: "Alert (success_text P d) \<notin> set (snd (handleFormSubmit P st))"
    if "\<exists>f\<in>set (form_fields (currentForm st)). validateField f (app_formData st (field_id f)) \<noteq> []"
    using that fix_errors_not_success[of P d] by (simp add: 2)
  have 6: "Alert (success_text P d) \<notin> set (snd (FormPreview_handleFormSubmit P this))"
    if "\<exists>f\<in>set (form_fields (form this)). validateField f (formData this (field_id f)) \<noteq> []"
    using that fix_errors_not_success[of P d] by (simp add: 4)
  have 7: "formData (fst (FormPreview_handleFormSubmit P this)) = formData this"
    if "\<forall>f\<in>set (form_fields (form this)). validateField f (formData this (field_id f)) = []"
    using that by (simp add: FormPreview_handleFormSubmit_def Let_def hasErrors_validateForm)
  from 1 2 3 4 5 6 7 show ?thesis by blast
qed

lemmas submit_defs = ex_submit_form_def ex_submit_app_def ex_submit_preview_def ex_text_field_def
  ex_required_def ex_minLength3_def validateForm_def validateField_def

text \<open>
  A field with the rules \<open>required\<close> and \<open>minLength(3)\<close>: the values \<open>""\<close> and \<open>Bo\<close> are
  refused with the message of the failing rule in the error map, \<open>Bob\<close> is submitted.
\<close>

theorem submit_gated_by_validation_witness:
  "snd (handleFormSubmit ex_platform (ex_submit_app [])) = [Alert fix_errors_text]
   \<and> app_formErrors (fst (handleFormSubmit ex_platform (ex_submit_app [])))
       = [(''f1'', ''This field is required'')]
   \<and> snd (handleFormSubmit ex_platform (ex_submit_app ''Bob''))
       = [Alert (success_text ex_platform [''f1'' \<mapsto> Str ''Bob''])]
   \<and> app_formErrors (fst (handleFormSubmit ex_platform (ex_submit_app ''Bob''))) = []
   \<and> snd (FormPreview_handleFormSubmit ex_platform (ex_submit_preview ''Bo''))
       = [Alert fix_errors_text, RenderPreview]
   \<and> formErrors (fst (FormPreview_handleFormSubmit ex_platform (ex_submit_preview ''Bo'')))
       = [(''f1'', ''Minimum length not met'')]
   \<and> snd (FormPreview_handleFormSubmit ex_platform (ex_submit_preview ''Bob''))
       = [Alert (success_text ex_platform [''f1'' \<mapsto> Str ''Bob''])]"
  using submit_gated_by_validation [where P = ex_platform and st = "ex_submit_app []"
      and this = "ex_submit_preview ''Bo''" and d = Map.empty]
    submit_gated_by_validation [where P = ex_platform and st = "ex_submit_app ''Bob''"
      and this = "ex_submit_preview ''Bob''" and d = Map.empty]
  by (simp add: submit_defs)

section \<open>Persistence gateway: properties\<close>

lemma find_snoc:
  "find p (xs @ [y]) = (case find p xs of None \<Rightarrow> (if p y then Some y else None) | Some x \<Rightarrow> Some x)"
  by (induction xs) auto

lemma getSavedForms_saveForm: "saveForm frm ls = Inr ls' \<Longrightarrow> getSavedForms ls' = getSavedForms ls @ [frm]"
  by (auto simp: saveForm_def getSavedForms_def Let_def split: if_splits)

lemma find_absent: "i \<notin> form_id ` set fs \<Longrightarrow> find (\<lambda>g. form_id g = i) fs = None"
  by (auto simp: find_None_iff)

text \<open>
  C9, as the code has it: a form that has been saved is returned by a load by its id,
  equal in every part, provided no form saved earlier has the same id; in general the load
  returns the first saved form with the id. Saving fails only when the storage refuses the
  write. For the gateway on \<^verbatim>\<open>localStorage\<close>, for the in-memory gateway, and for
  \<^verbatim>\<open>saveForm(name)\<close> of the component with a fresh id.
\<close>

theorem save_then_load:
  "(saveForm frm ls = Inr ls' \<longrightarrow>
      getFormById (form_id frm) ls'
        = Some (case find (\<lambda>g. form_id g = form_id frm) (getSavedForms ls) of
                  None \<Rightarrow> frm | Some g \<Rightarrow> g)
      \<and> (form_id frm \<notin> form_id ` set (getSavedForms ls) \<longrightarrow>
           getFormById (form_id frm) ls' = Some frm))
   \<and> (\<not> quota_exceeded ls \<longrightarrow> (\<exists>ls''. saveForm frm ls = Inr ls''))
   \<and> (form_id frm \<notin> form_id ` set storage \<longrightarrow>
        memory_getFormById (form_id frm) (memory_saveForm frm storage) = Some frm)
   \<and> (form_fields (currentForm st) \<noteq> [] \<and> newId \<notin> form_id ` set storage \<longrightarrow>
        memory_getFormById newId (snd (fst (DynamicFormBuilder_saveForm name newId now (st, storage))))
          = Some \<lparr>form_id = newId, form_name = name, form_fields = form_fields (currentForm st),
                  createdAt = now\<rparr>)"
proof (intro conjI impI)
  show "getFormById (form_id frm) ls'
        = Some (case find (\<lambda>g. form_id g = form_id frm) (getSavedForms ls) of
                  None \<Rightarrow> frm | Some g \<Rightarrow> g)"
    if "saveForm frm ls = Inr ls'"
    using getSavedForms_saveForm[OF that]
    by (simp add: getFormById_def find_snoc split: option.splits)
  show "getFormById (form_id frm) ls' = Some frm"
    if "saveForm frm ls = Inr ls'" and "form_id frm \<notin> form_id ` set (getSavedForms ls)"
    using getSavedForms_saveForm[OF that(1)] find_absent[OF that(2)]
    by (simp add: getFormById_def find_snoc)
  show "\<exists>ls''. saveForm frm ls = Inr ls''" if "\<not> quota_exceeded ls"
    using that by (simp add: saveForm_def Let_def)
  show "memory_getFormById (form_id frm) (memory_saveForm frm storage) = Some frm"
    if "form_id frm \<notin> form_id ` set storage"
    using find_absent[OF that] by (simp add: memory_getFormById_def memory_saveForm_def find_snoc)
  show "memory_getFormById newId (snd (fst (DynamicFormBuilder_saveForm name newId now (st, storage))))
          = Some \<lparr>form_id = newId, form_name = name, form_fields = form_fields (currentForm st),
                  createdAt = now\<rparr>"
    if "form_fields (currentForm st) \<noteq> [] \<and> newId \<notin> form_id ` set storage"
  proof -
    from that have "find (\<lambda>g. form_id g = newId) storage = None" by (simp add: find_absent)
    with that show ?thesis
      by (simp add: DynamicFormBuilder_saveForm_def Let_def memory_getFormById_def
          memory_saveForm_def find_snoc)
  qed
qed

text \<open>
  C9 as stated fails when a form with the same id has been saved before: the load returns
  the earlier form, which differs from the one just saved.
\<close>

theorem save_then_load_counterexample:
  "saveForm ex_saved_second (ex_storage [ex_saved_first])
     = Inr (ex_storage [ex_saved_first, ex_saved_second])
   \<and> getFormById (form_id ex_saved_second) (ex_storage [ex_saved_first, ex_saved_second])
     = Some ex_saved_first
   \<and> ex_saved_first \<noteq> ex_saved_second
   \<and> memory_getFormById (form_id ex_saved_second) (memory_saveForm ex_saved_second [ex_saved_first])
     = Some ex_saved_first"
  by (simp add: saveForm_def getSavedForms_def getFormById_def ex_storage_def ex_saved_first_def
      ex_saved_second_def memory_getFormById_def memory_saveForm_def)

text \<open>
  A form with two fields, rules and options is saved to an empty storage and loaded back;
  the component saves the example form under a fresh id next to an earlier form.
\<close>

theorem save_then_load_witness:
  "saveForm ex_saved_second (ex_storage []) = Inr (ex_storage [ex_saved_second])
   \<and> form_id ex_saved_second \<notin> form_id ` set (getSavedForms (ex_storage []))
   \<and> getFormById (form_id ex_saved_second) (ex_storage [ex_saved_second]) = Some ex_saved_second
   \<and> memory_getFormById ''x'' (memory_saveForm ex_saved_second []) = Some ex_saved_second
   \<and> form_fields (currentForm (ex_app ''A + B'')) \<noteq> []
   \<and> memory_getFormById ''n1''
        (snd (fst (DynamicFormBuilder_saveForm ''Sum'' ''n1'' ''2024-01-03T00:00:00.000Z''
                     (ex_app ''A + B'', [ex_saved_first]))))
      = Some \<lparr>form_id = ''n1'', form_name = ''Sum'', form_fields = form_fields (ex_form ''A + B''),
              createdAt = ''2024-01-03T00:00:00.000Z''\<rparr>"
proof -
  have s: "saveForm ex_saved_second (ex_storage []) = Inr (ex_storage [ex_saved_second])"
    by (simp add: saveForm_def getSavedForms_def ex_storage_def)
  have a: "form_id ex_saved_second \<notin> form_id ` set (getSavedForms (ex_storage []))"
    "form_id ex_saved_second \<notin> form_id ` set []"
    by (simp_all add: getSavedForms_def ex_storage_def)
  have n: "form_fields (currentForm (ex_app ''A + B'')) \<noteq> [] \<and> ''n1'' \<notin> form_id ` set [ex_saved_first]"
    by (simp add: ex_app_def ex_form_def ex_saved_first_def)
  have i: "form_id ex_saved_second = ''x''" "currentForm (ex_app ''A + B'') = ex_form ''A + B''"
    by (simp_all add: ex_saved_second_def ex_app_def)
  from save_then_load [of ex_saved_second "ex_storage []" "ex_storage [ex_saved_second]" "[]"
      "ex_app ''A + B''" "''n1''" "''Sum''" "''2024-01-03T00:00:00.000Z''", THEN conjunct1] s a
  have 1: "getFormById (form_id ex_saved_second) (ex_storage [ex_saved_second]) = Some ex_saved_second"
    by blast
  from save_then_load [of ex_saved_second "ex_storage []" "ex_storage [ex_saved_second]" "[]"
      "ex_app ''A + B''" "''n1''" "''Sum''" "''2024-01-03T00:00:00.000Z''",
      THEN conjunct2, THEN conjunct2, THEN conjunct1] a i
  have 2: "memory_getFormById ''x'' (memory_saveForm ex_saved_second []) = Some ex_saved_second"
    by simp
  from save_then_load [of ex_saved_second "ex_storage []" "ex_storage [ex_saved_second]" "[ex_saved_first]"
      "ex_app ''A + B''" "''n1''" "''Sum''" "''2024-01-03T00:00:00.000Z''",
      THEN conjunct2, THEN conjunct2, THEN conjunct2] n i
  have 3: "memory_getFormById ''n1''
        (snd (fst (DynamicFormBuilder_saveForm ''Sum'' ''n1'' ''2024-01-03T00:00:00.000Z''
                     (ex_app ''A + B'', [ex_saved_first]))))
      = Some \<lparr>form_id = ''n1'', form_name = ''Sum'', form_fields = form_fields (ex_form ''A + B''),
              createdAt = ''2024-01-03T00:00:00.000Z''\<rparr>"
    by simp
  from s a n 1 2 3 show ?thesis by blast
qed

end
